theory Spec2Isabelle
  imports Main
begin

section \<open>Values, requests and the browser environment\<close>

text \<open>
  The hooks are generic in the stored type \<open>T\<close>. What the code inspects of a value is its
  JavaScript truthiness and whether it is \<open>null\<close>, \<open>undefined\<close> or the empty string, so
  values are modelled by the run-time shapes that those tests tell apart. Numbers are the
  integers together with \<open>NaN\<close>.
\<close>

datatype jsval =
    JNull
  | JUndefined
  | JBool bool
  | JNum int
  | JNaN
  | JStr string
  | JArr "jsval list"
  | JObj "(string \<times> jsval) list"

text \<open>JavaScript's \<open>ToBoolean\<close>, the test behind \<open>!value\<close>.\<close>

fun truthy :: "jsval \<Rightarrow> bool" where
  "truthy JNull = False"
| "truthy JUndefined = False"
| "truthy (JBool b) = b"
| "truthy (JNum n) = (n \<noteq> 0)"
| "truthy JNaN = False"
| "truthy (JStr s) = (s \<noteq> [])"
| "truthy (JArr xs) = True"
| "truthy (JObj fs) = True"

text \<open>A thrown exception, with its message.\<close>

datatype error = Thrown string

text \<open>
  The argument of the update function: a plain value, or an updater (the case
  \<open>typeof value === "function"\<close>). An updater is consumer code and may throw.
\<close>

datatype request =
    Literal jsval
  | Updater "jsval \<Rightarrow> error + jsval"

text \<open>The two Web Storage objects, and the mutating calls made on them.\<close>

datatype backend = LocalStorage | SessionStorage

datatype storage_op =
    SetItem backend string string
  | RemoveItem backend string

text \<open>
  The four \<open>console.warn\<close> messages. The parse warning names a storage in its text:
  \<open>utils.ts\<close> and the session hook say "sessionStorage", the inline local hook says
  "localStorage".
\<close>

datatype diagnostic =
    ParseWarning backend string error
  | DefaultNotSerializable
  | UpdateAborted string error
  | AutoUpdateAborted string error

text \<open>
  Everything one binding instance can read or change.
  \<^item> \<open>stores\<close>: the records of both storages.
  \<^item> \<open>refusal\<close>: the storage's \<open>setItem\<close> may throw (a full or disabled storage); given the
    storage, its records, the key and the text to write, \<open>refusal\<close> is the exception it
    throws, if any. \<open>getItem\<close> and \<open>removeItem\<close> do not throw.
  \<^item> \<open>issued\<close>: the calls of \<open>setItem\<close> and \<open>removeItem\<close> made so far, in order, a throwing
    \<open>setItem\<close> included. Reads are not recorded.
  \<^item> \<open>console\<close>: the warnings printed.
  \<^item> \<open>storedValue\<close>: the React state cell of \<open>useState(null)\<close>, that is the value last
    passed to its setter; the next render returns it to the consumer as the current value.
  \<^item> \<open>renderedValue\<close>: the value that the latest render read from that cell. The update
    function handed out by a render closes over it, so all update calls made from one
    render compute from this value.
  \<^item> \<open>loading\<close>: the state cell of \<open>useState(true)\<close>.
\<close>

record binding =
  stores :: "backend \<Rightarrow> string \<Rightarrow> string option"
  refusal :: "backend \<Rightarrow> (string \<Rightarrow> string option) \<Rightarrow> string \<Rightarrow> string \<Rightarrow> error option"
  issued :: "storage_op list"
  console :: "diagnostic list"
  storedValue :: jsval
  renderedValue :: jsval
  loading :: bool

text \<open>The hook's arguments; an omitted \<open>defaultValue\<close> is \<open>undefined\<close>.\<close>

record props =
  key :: string
  defaultValue :: jsval
  serialize :: "jsval \<Rightarrow> error + string"
  deserialize :: "string \<Rightarrow> error + jsval"

definition getItem :: "binding \<Rightarrow> backend \<Rightarrow> string \<Rightarrow> string option" where
  "getItem w b k = stores w b k"

text \<open>What \<open>setItem\<close> throws on the present records, if anything.\<close>

definition setItemThrows :: "binding \<Rightarrow> backend \<Rightarrow> string \<Rightarrow> string \<Rightarrow> error option" where
  "setItemThrows w b k v = refusal w b (stores w b) k v"

text \<open>The two outcomes of a call of \<open>setItem\<close>: the record is written, or nothing is.\<close>

definition written :: "backend \<Rightarrow> string \<Rightarrow> string \<Rightarrow> binding \<Rightarrow> binding" where
  "written b k v w =
     w\<lparr>stores := (stores w)(b := (stores w b)(k \<mapsto> v)),
       issued := issued w @ [SetItem b k v]\<rparr>"

definition attempted :: "backend \<Rightarrow> string \<Rightarrow> string \<Rightarrow> binding \<Rightarrow> binding" where
  "attempted b k v w = w\<lparr>issued := issued w @ [SetItem b k v]\<rparr>"

definition setItem ::
  "backend \<Rightarrow> string \<Rightarrow> string \<Rightarrow> binding \<Rightarrow> error option \<times> binding" where
  "setItem b k v w =
     (case setItemThrows w b k v of
        Some e \<Rightarrow> (Some e, attempted b k v w)
      | None \<Rightarrow> (None, written b k v w))"

definition removeItem :: "backend \<Rightarrow> string \<Rightarrow> binding \<Rightarrow> binding" where
  "removeItem b k w =
     w\<lparr>stores := (stores w)(b := (stores w b)(k := None)),
       issued := issued w @ [RemoveItem b k]\<rparr>"

definition warn :: "diagnostic \<Rightarrow> binding \<Rightarrow> binding" where
  "warn d w = w\<lparr>console := console w @ [d]\<rparr>"

definition setStoredValue :: "jsval \<Rightarrow> binding \<Rightarrow> binding" where
  "setStoredValue v w = w\<lparr>storedValue := v\<rparr>"

definition setLoading :: "bool \<Rightarrow> binding \<Rightarrow> binding" where
  "setLoading b w = w\<lparr>loading := b\<rparr>"

text \<open>A render reads the state cell.\<close>

definition render :: "binding \<Rightarrow> binding" where
  "render w = w\<lparr>renderedValue := storedValue w\<rparr>"

text \<open>
  The first render, on storages that accept every write: both state cells at their initial
  values, nothing issued yet. \<open>quotaExceeded\<close> makes both storages refuse every write.
\<close>

definition initialRender :: "(backend \<Rightarrow> string \<Rightarrow> string option) \<Rightarrow> binding" where
  "initialRender s =
     \<lparr>stores = s, refusal = (\<lambda>b m k v. None), issued = [], console = [],
      storedValue = JNull, renderedValue = JNull, loading = True\<rparr>"

definition quotaExceeded :: "binding \<Rightarrow> binding" where
  "quotaExceeded w = w\<lparr>refusal := (\<lambda>b m k v. Some (Thrown ''QuotaExceededError''))\<rparr>"

section \<open>The shared helpers of \<open>utils.ts\<close>\<close>

text \<open>
  \<open>calculateNewValue\<close>: an updater is called on the held value, outside any \<open>try\<close>; a falsy
  plain value becomes \<open>null\<close>; any other plain value is kept.
\<close>

fun calculateNewValue :: "request \<Rightarrow> jsval \<Rightarrow> error + jsval" where
  "calculateNewValue (Updater callback) held = callback held"
| "calculateNewValue (Literal v) held = Inr (if \<not> truthy v then JNull else v)"

text \<open>
  \<open>updateStorage\<close>. The state setter passed in the source is the \<open>storedValue\<close> cell of the
  binding. Inside the \<open>try\<close> the serializer runs first, then \<open>setItem\<close>, then the setter;
  the \<open>catch\<close> takes the exception of either of the first two.
\<close>

definition updateStorage ::
  "backend \<Rightarrow> jsval \<Rightarrow> string \<Rightarrow> (jsval \<Rightarrow> error + string) \<Rightarrow> binding \<Rightarrow> error + binding" where
  "updateStorage storage newValue k ser w =
     (if newValue = JNull \<or> newValue = JUndefined \<or> newValue = JStr []
      then Inr (setStoredValue JNull (removeItem storage k w))
      else (case ser newValue of
              Inl e \<Rightarrow> Inr (warn (UpdateAborted k e) w)
            | Inr s \<Rightarrow>
                (case setItem storage k s w of
                   (Some e, w') \<Rightarrow> Inr (warn (UpdateAborted k e) w')
                 | (None, w') \<Rightarrow> Inr (setStoredValue newValue w'))))"

text \<open>
  \<open>setInitialValue\<close>. \<open>if (item)\<close> holds for a record that is present and not the empty
  string. An inner \<open>Inl\<close> is an early \<open>return true\<close>; an inner \<open>Inr\<close> falls through to the
  next statement. The second \<open>try\<close> covers the serializer and \<open>setItem\<close>.
\<close>

definition setInitialValue ::
  "backend \<Rightarrow> string \<Rightarrow> jsval \<Rightarrow> (string \<Rightarrow> error + jsval) \<Rightarrow> (jsval \<Rightarrow> error + string)
     \<Rightarrow> binding \<Rightarrow> error + (bool \<times> binding)" where
  "setInitialValue storage k dflt deser ser w =
     (case (case getItem w storage k of
              None \<Rightarrow> Inr w
            | Some item \<Rightarrow>
                if item \<noteq> []
                then (case deser item of
                        Inr v \<Rightarrow> Inl (setStoredValue v w)
                      | Inl e \<Rightarrow>
                          Inr (removeItem storage k (warn (ParseWarning SessionStorage k e) w)))
                else Inr w) of
        Inl done \<Rightarrow> Inr (True, done)
      | Inr w1 \<Rightarrow>
          (case (if dflt \<noteq> JUndefined
                 then (case ser dflt of
                         Inl e \<Rightarrow> Inr (warn DefaultNotSerializable w1)
                       | Inr s \<Rightarrow>
                           (case setItem storage k s w1 of
                              (Some e, w1') \<Rightarrow> Inr (warn DefaultNotSerializable w1')
                            | (None, w1') \<Rightarrow> Inl (setStoredValue dflt w1')))
                 else Inr w1) of
             Inl done \<Rightarrow> Inr (True, done)
           | Inr w2 \<Rightarrow> Inr (True, setStoredValue JNull w2)))"

section \<open>The hooks\<close>

text \<open>
  The repository holds each hook twice: with the logic written inline, and composed from
  the helpers of \<open>utils.ts\<close>. A hook is modelled by what it contributes to a mounted
  component: the effect that loads the initial value, the update function it returns and,
  for the local hook, the listener for \<open>storage\<close> events. The session hooks install no
  listener.
\<close>

datatype event =
    Update request
  | StorageEvent "string option" "string option"
  | Rerender bool

text \<open>
  \<open>Update r\<close> is a call of the update function handed out by the latest render.
  \<open>StorageEvent k v\<close> is a \<open>storage\<close> event with \<open>event.key = k\<close> and \<open>event.newValue = v\<close>
  (\<open>None\<close> for \<open>null\<close>). \<open>Rerender changed\<close> is a later render of the component: it reads
  the state cell, and \<open>changed\<close> says whether one of \<open>key\<close>, \<open>defaultValue\<close>, \<open>deserialize\<close>,
  \<open>serialize\<close> is a different object than at the previous render (React compares the
  entries of a dependency array with \<open>Object.is\<close>), which is the case for instance when the
  consumer passes a function or an object literal written inline. A HOL function has no
  identity, so this is an input of the run. React runs an effect again after a render
  exactly when its dependency array changed; an effect with the array \<open>[]\<close> runs after the
  first render only. Update calls with no render between them come from one render.
\<close>

subsection \<open>The session hook with inline logic\<close>

definition useSessionState_inline_setInitialValue ::
  "props \<Rightarrow> binding \<Rightarrow> error + (bool \<times> binding)" where
  "useSessionState_inline_setInitialValue p w =
     (case (case getItem w SessionStorage (key p) of
              None \<Rightarrow> Inr w
            | Some item \<Rightarrow>
                if item \<noteq> []
                then (case deserialize p item of
                        Inr v \<Rightarrow> Inl (setStoredValue v w)
                      | Inl e \<Rightarrow>
                          Inr (removeItem SessionStorage (key p)
                                 (warn (ParseWarning SessionStorage (key p) e) w)))
                else Inr w) of
        Inl done \<Rightarrow> Inr (True, done)
      | Inr w1 \<Rightarrow>
          (case (if defaultValue p \<noteq> JUndefined
                 then (case serialize p (defaultValue p) of
                         Inl e \<Rightarrow> Inr (warn DefaultNotSerializable w1)
                       | Inr s \<Rightarrow>
                           (case setItem SessionStorage (key p) s w1 of
                              (Some e, w1') \<Rightarrow> Inr (warn DefaultNotSerializable w1')
                            | (None, w1') \<Rightarrow> Inl (setStoredValue (defaultValue p) w1')))
                 else Inr w1) of
             Inl done \<Rightarrow> Inr (True, done)
           | Inr w2 \<Rightarrow> Inr (True, setStoredValue JNull w2)))"

definition useSessionState_inline_effect :: "props \<Rightarrow> binding \<Rightarrow> error + binding" where
  "useSessionState_inline_effect p w =
     (case useSessionState_inline_setInitialValue p w of
        Inl e \<Rightarrow> Inl e
      | Inr (isValueSet, w') \<Rightarrow> Inr (setLoading (\<not> isValueSet) w'))"

definition useSessionState_inline_updateValue ::
  "props \<Rightarrow> request \<Rightarrow> binding \<Rightarrow> error + binding" where
  "useSessionState_inline_updateValue p val w =
     (case (case val of
              Updater callback \<Rightarrow> callback (renderedValue w)
            | Literal v \<Rightarrow> Inr (if \<not> truthy v then JNull else v)) of
        Inl e \<Rightarrow> Inl e
      | Inr newValue \<Rightarrow>
          if newValue = JNull \<or> newValue = JUndefined \<or> newValue = JStr []
          then Inr (setStoredValue JNull (removeItem SessionStorage (key p) w))
          else (case serialize p newValue of
                  Inl e \<Rightarrow> Inr (warn (UpdateAborted (key p) e) w)
                | Inr s \<Rightarrow>
                    (case setItem SessionStorage (key p) s w of
                       (Some e, w') \<Rightarrow> Inr (warn (UpdateAborted (key p) e) w')
                     | (None, w') \<Rightarrow> Inr (setStoredValue newValue w'))))"

text \<open>The effect has the dependency array \<open>[]\<close>: it runs at mount only.\<close>

fun useSessionState_inline_step :: "props \<Rightarrow> event \<Rightarrow> binding \<Rightarrow> error + binding" where
  "useSessionState_inline_step p (Update val) w = useSessionState_inline_updateValue p val w"
| "useSessionState_inline_step p (StorageEvent k v) w = Inr w"
| "useSessionState_inline_step p (Rerender changed) w = Inr (render w)"

subsection \<open>The session hook composed from the helpers\<close>

definition useSessionState_effect :: "props \<Rightarrow> binding \<Rightarrow> error + binding" where
  "useSessionState_effect p w =
     (case setInitialValue SessionStorage (key p) (defaultValue p) (deserialize p)
             (serialize p) w of
        Inl e \<Rightarrow> Inl e
      | Inr (isValueSet, w') \<Rightarrow> Inr (setLoading (\<not> isValueSet) w'))"

definition useSessionState_updateValue ::
  "props \<Rightarrow> request \<Rightarrow> binding \<Rightarrow> error + binding" where
  "useSessionState_updateValue p newValue w =
     (case calculateNewValue newValue (renderedValue w) of
        Inl e \<Rightarrow> Inl e
      | Inr calculatedValue \<Rightarrow>
          updateStorage SessionStorage calculatedValue (key p) (serialize p) w)"

text \<open>
  The effect has the dependency array \<open>[key, defaultValue, deserialize, serialize]\<close>: it
  runs at mount and again after every render in which one of them changed.
\<close>

fun useSessionState_step :: "props \<Rightarrow> event \<Rightarrow> binding \<Rightarrow> error + binding" where
  "useSessionState_step p (Update val) w = useSessionState_updateValue p val w"
| "useSessionState_step p (StorageEvent k v) w = Inr w"
| "useSessionState_step p (Rerender changed) w =
     (if changed then useSessionState_effect p (render w) else Inr (render w))"

subsection \<open>The local hook with inline logic\<close>

definition useLocalState_inline_setInitialValue ::
  "props \<Rightarrow> binding \<Rightarrow> error + (bool \<times> binding)" where
  "useLocalState_inline_setInitialValue p w =
     (case (case getItem w LocalStorage (key p) of
              None \<Rightarrow> Inr w
            | Some item \<Rightarrow>
                if item \<noteq> []
                then (case deserialize p item of
                        Inr v \<Rightarrow> Inl (setStoredValue v w)
                      | Inl e \<Rightarrow>
                          Inr (removeItem LocalStorage (key p)
                                 (warn (ParseWarning LocalStorage (key p) e) w)))
                else Inr w) of
        Inl done \<Rightarrow> Inr (True, done)
      | Inr w1 \<Rightarrow>
          (case (if defaultValue p \<noteq> JUndefined
                 then (case serialize p (defaultValue p) of
                         Inl e \<Rightarrow> Inr (warn DefaultNotSerializable w1)
                       | Inr s \<Rightarrow>
                           (case setItem LocalStorage (key p) s w1 of
                              (Some e, w1') \<Rightarrow> Inr (warn DefaultNotSerializable w1')
                            | (None, w1') \<Rightarrow> Inl (setStoredValue (defaultValue p) w1')))
                 else Inr w1) of
             Inl done \<Rightarrow> Inr (True, done)
           | Inr w2 \<Rightarrow> Inr (True, setStoredValue JNull w2)))"

definition useLocalState_inline_effect :: "props \<Rightarrow> binding \<Rightarrow> error + binding" where
  "useLocalState_inline_effect p w =
     (case useLocalState_inline_setInitialValue p w of
        Inl e \<Rightarrow> Inl e
      | Inr (isValueSet, w') \<Rightarrow> Inr (setLoading (\<not> isValueSet) w'))"

definition useLocalState_inline_updateValue ::
  "props \<Rightarrow> request \<Rightarrow> binding \<Rightarrow> error + binding" where
  "useLocalState_inline_updateValue p val w =
     (case (case val of
              Updater callback \<Rightarrow> callback (renderedValue w)
            | Literal v \<Rightarrow> Inr (if \<not> truthy v then JNull else v)) of
        Inl e \<Rightarrow> Inl e
      | Inr newValue \<Rightarrow>
          if newValue = JNull \<or> newValue = JUndefined \<or> newValue = JStr []
          then Inr (setStoredValue JNull (removeItem LocalStorage (key p) w))
          else (case serialize p newValue of
                  Inl e \<Rightarrow> Inr (warn (UpdateAborted (key p) e) w)
                | Inr s \<Rightarrow>
                    (case setItem LocalStorage (key p) s w of
                       (Some e, w') \<Rightarrow> Inr (warn (UpdateAborted (key p) e) w')
                     | (None, w') \<Rightarrow> Inr (setStoredValue newValue w'))))"

text \<open>
  The listener. \<open>event.newValue ? deserialize(event.newValue) : null\<close> deserializes a new
  value that is present and not the empty string. (The inline local hook also reads
  \<open>localStorage.getItem(key)\<close> during each render and does not use the result.)
\<close>

definition useLocalState_inline_handleStorageChange ::
  "props \<Rightarrow> string option \<Rightarrow> string option \<Rightarrow> binding \<Rightarrow> error + binding" where
  "useLocalState_inline_handleStorageChange p eventKey newValue w =
     (if eventKey = Some (key p)
      then (case (case newValue of
                    None \<Rightarrow> Inr JNull
                  | Some raw \<Rightarrow> if raw \<noteq> [] then deserialize p raw else Inr JNull) of
              Inr v \<Rightarrow> Inr (setStoredValue v w)
            | Inl e \<Rightarrow> Inr (warn (AutoUpdateAborted (key p) e) w))
      else Inr w)"

fun useLocalState_inline_step :: "props \<Rightarrow> event \<Rightarrow> binding \<Rightarrow> error + binding" where
  "useLocalState_inline_step p (Update val) w = useLocalState_inline_updateValue p val w"
| "useLocalState_inline_step p (StorageEvent k v) w =
     useLocalState_inline_handleStorageChange p k v w"
| "useLocalState_inline_step p (Rerender changed) w = Inr (render w)"

subsection \<open>The local hook composed from the helpers\<close>

definition useLocalState_handleStorageChange ::
  "props \<Rightarrow> string option \<Rightarrow> string option \<Rightarrow> binding \<Rightarrow> error + binding" where
  "useLocalState_handleStorageChange p eventKey newValue w =
     (if eventKey = Some (key p)
      then (case (case newValue of
                    None \<Rightarrow> Inr JNull
                  | Some raw \<Rightarrow> if raw \<noteq> [] then deserialize p raw else Inr JNull) of
              Inr v \<Rightarrow> Inr (setStoredValue v w)
            | Inl e \<Rightarrow> Inr (warn (AutoUpdateAborted (key p) e) w))
      else Inr w)"

definition useLocalState_effect :: "props \<Rightarrow> binding \<Rightarrow> error + binding" where
  "useLocalState_effect p w =
     (case setInitialValue LocalStorage (key p) (defaultValue p) (deserialize p)
             (serialize p) w of
        Inl e \<Rightarrow> Inl e
      | Inr (isValueSet, w') \<Rightarrow> Inr (setLoading (\<not> isValueSet) w'))"

definition useLocalState_updateValue ::
  "props \<Rightarrow> request \<Rightarrow> binding \<Rightarrow> error + binding" where
  "useLocalState_updateValue p newValue w =
     (case calculateNewValue newValue (renderedValue w) of
        Inl e \<Rightarrow> Inl e
      | Inr calculatedValue \<Rightarrow>
          updateStorage LocalStorage calculatedValue (key p) (serialize p) w)"

text \<open>
  One effect loads the value and installs the listener; its dependency array is
  \<open>[key, defaultValue, deserialize, serialize]\<close>.
\<close>

fun useLocalState_step :: "props \<Rightarrow> event \<Rightarrow> binding \<Rightarrow> error + binding" where
  "useLocalState_step p (Update val) w = useLocalState_updateValue p val w"
| "useLocalState_step p (StorageEvent k v) w = useLocalState_handleStorageChange p k v w"
| "useLocalState_step p (Rerender changed) w =
     (if changed then useLocalState_effect p (render w) else Inr (render w))"

subsection \<open>Running a binding\<close>

text \<open>
  An exception that leaves a call reaches the caller and the state stays as it was; the
  escaped exceptions are collected beside the state.
\<close>

fun run ::
  "(event \<Rightarrow> binding \<Rightarrow> error + binding) \<Rightarrow> event list \<Rightarrow> binding \<times> error list
     \<Rightarrow> binding \<times> error list" where
  "run step [] acc = acc"
| "run step (ev # evs) (w, escaped) =
     (case step ev w of
        Inr w' \<Rightarrow> run step evs (w', escaped)
      | Inl e \<Rightarrow> run step evs (w, escaped @ [e]))"

definition mount :: "(binding \<Rightarrow> error + binding) \<Rightarrow> binding \<Rightarrow> binding \<times> error list" where
  "mount effect w = (case effect w of Inr w' \<Rightarrow> (w', []) | Inl e \<Rightarrow> (w, [e]))"

text \<open>
  What the consumer sees of a binding: the state cell, the value of the latest render, the
  loading flag, the records of the storages and the exceptions that reached it.
\<close>

definition observe ::
  "binding \<times> error list
     \<Rightarrow> jsval \<times> jsval \<times> bool \<times> (backend \<Rightarrow> string \<Rightarrow> string option) \<times> error list" where
  "observe r =
     (storedValue (fst r), renderedValue (fst r), loading (fst r), stores (fst r), snd r)"

text \<open>The calls of \<open>setItem\<close> and \<open>removeItem\<close> made on the way from \<open>w\<close> to \<open>w'\<close>.\<close>

definition newlyIssued :: "binding \<Rightarrow> binding \<Rightarrow> storage_op list" where
  "newlyIssued w w' = drop (length (issued w)) (issued w')"

text \<open>Two bindings that differ at most in what was printed on the console.\<close>

definition agree :: "binding \<Rightarrow> binding \<Rightarrow> bool" where
  "agree w1 w2 \<longleftrightarrow>
     stores w1 = stores w2 \<and> refusal w1 = refusal w2 \<and> issued w1 = issued w2
     \<and> storedValue w1 = storedValue w2 \<and> renderedValue w1 = renderedValue w2
     \<and> loading w1 = loading w2"

subsection \<open>Serializer pairs for concrete runs\<close>

text \<open>
  The boolean pair of the test suite, \<open>value ? "yes" : "no"\<close> and \<open>value === "yes"\<close>, and
  a strict pair for \<open>null\<close>, \<open>true\<close> and \<open>false\<close>, written as \<open>JSON.stringify\<close> writes them,
  that throws on everything else, as \<open>JSON.stringify\<close> does on a circular object and
  \<open>JSON.parse\<close> on malformed text.
\<close>

definition yesNoSerialize :: "jsval \<Rightarrow> error + string" where
  "yesNoSerialize v = Inr (if truthy v then ''yes'' else ''no'')"

definition yesNoDeserialize :: "string \<Rightarrow> error + jsval" where
  "yesNoDeserialize s = Inr (JBool (s = ''yes''))"

definition strictSerialize :: "jsval \<Rightarrow> error + string" where
  "strictSerialize v =
     (case v of
        JNull \<Rightarrow> Inr ''null''
      | JBool b \<Rightarrow> Inr (if b then ''true'' else ''false'')
      | _ \<Rightarrow> Inl (Thrown ''TypeError''))"

definition strictDeserialize :: "string \<Rightarrow> error + jsval" where
  "strictDeserialize s =
     (if s = ''null'' then Inr JNull
      else if s = ''true'' then Inr (JBool True)
      else if s = ''false'' then Inr (JBool False)
      else Inl (Thrown ''SyntaxError''))"

text \<open>Both storages empty, and both holding one record, as a test seeds them.\<close>

definition noStores :: "backend \<Rightarrow> string \<Rightarrow> string option" where
  "noStores = (\<lambda>b. Map.empty)"

definition seeded :: "string \<Rightarrow> string \<Rightarrow> backend \<Rightarrow> string \<Rightarrow> string option" where
  "seeded k r = (\<lambda>b. [k \<mapsto> r])"

definition testProps :: "jsval \<Rightarrow> props" where
  "testProps d =
     \<lparr>key = ''testKey'', defaultValue = d, serialize = yesNoSerialize,
      deserialize = yesNoDeserialize\<rparr>"

definition strictProps :: "jsval \<Rightarrow> props" where
  "strictProps d =
     \<lparr>key = ''testKey'', defaultValue = d, serialize = strictSerialize,
      deserialize = strictDeserialize\<rparr>"

text \<open>An updater that throws, and one that negates a boolean.\<close>

definition throwingUpdater :: "jsval \<Rightarrow> error + jsval" where
  "throwingUpdater prev = Inl (Thrown ''updater failed'')"

definition toggleUpdater :: "jsval \<Rightarrow> error + jsval" where
  "toggleUpdater prev = Inr (JBool (\<not> truthy prev))"

text \<open>The state after a call: the one it returned, or the old one when it threw.\<close>

definition committed :: "binding \<Rightarrow> error + binding \<Rightarrow> binding" where
  "committed w r = (case r of Inr w' \<Rightarrow> w' | Inl e \<Rightarrow> w)"

section \<open>Basic facts about the model\<close>

lemmas env_defs =
  getItem_def written_def attempted_def removeItem_def warn_def setStoredValue_def
  setLoading_def render_def

lemmas fixture_defs =
  testProps_def strictProps_def initialRender_def quotaExceeded_def noStores_def seeded_def
  yesNoSerialize_def yesNoDeserialize_def strictSerialize_def strictDeserialize_def
  throwingUpdater_def toggleUpdater_def committed_def mount_def

subsection \<open>The two outcomes of \<open>setItem\<close>\<close>

lemma setItem_accepted:
  "setItemThrows w b k v = None \<Longrightarrow> setItem b k v w = (None, written b k v w)"
  by (simp add: setItem_def)

lemma setItem_refused:
  "setItemThrows w b k v = Some e \<Longrightarrow> setItem b k v w = (Some e, attempted b k v w)"
  by (simp add: setItem_def)

lemma setItemThrows_frame:
  "setItemThrows (warn d w) b k v = setItemThrows w b k v"
  "setItemThrows (setStoredValue x w) b k v = setItemThrows w b k v"
  by (simp_all add: setItemThrows_def env_defs)

lemma setItemThrows_initialRender: "setItemThrows (initialRender s) b k v = None"
  by (simp add: setItemThrows_def initialRender_def)

lemma setItemThrows_quotaExceeded:
  "setItemThrows (quotaExceeded w) b k v = Some (Thrown ''QuotaExceededError'')"
  by (simp add: setItemThrows_def quotaExceeded_def)

subsection \<open>The inline code against the helpers, call by call\<close>

lemma session_inline_setInitialValue_eq:
  "useSessionState_inline_setInitialValue p w =
     setInitialValue SessionStorage (key p) (defaultValue p) (deserialize p) (serialize p) w"
  by (simp add: useSessionState_inline_setInitialValue_def setInitialValue_def)

lemma session_inline_effect_eq: "useSessionState_inline_effect p w = useSessionState_effect p w"
  by (simp add: useSessionState_inline_effect_def useSessionState_effect_def
      session_inline_setInitialValue_eq)

lemma session_inline_updateValue_eq:
  "useSessionState_inline_updateValue p r w = useSessionState_updateValue p r w"
  by (cases r)
     (simp_all add: useSessionState_inline_updateValue_def useSessionState_updateValue_def
        updateStorage_def split: sum.splits)

lemma local_inline_updateValue_eq:
  "useLocalState_inline_updateValue p r w = useLocalState_updateValue p r w"
  by (cases r)
     (simp_all add: useLocalState_inline_updateValue_def useLocalState_updateValue_def
        updateStorage_def split: sum.splits)

lemma local_inline_handleStorageChange_eq:
  "useLocalState_inline_handleStorageChange p k v w = useLocalState_handleStorageChange p k v w"
  by (simp add: useLocalState_inline_handleStorageChange_def useLocalState_handleStorageChange_def)

subsection \<open>The outcomes of a write\<close>

lemma session_updateValue_computed:
  "calculateNewValue req (renderedValue w) = Inr v \<Longrightarrow>
     useSessionState_updateValue p req w = updateStorage SessionStorage v (key p) (serialize p) w"
  by (simp add: useSessionState_updateValue_def)

lemma local_updateValue_computed:
  "calculateNewValue req (renderedValue w) = Inr v \<Longrightarrow>
     useLocalState_updateValue p req w = updateStorage LocalStorage v (key p) (serialize p) w"
  by (simp add: useLocalState_updateValue_def)

lemma updateStorage_empty:
  "v = JNull \<or> v = JUndefined \<or> v = JStr [] \<Longrightarrow>
     updateStorage b v k ser w = Inr (setStoredValue JNull (removeItem b k w))"
  by (auto simp: updateStorage_def)

lemma updateStorage_throws:
  "v \<noteq> JNull \<Longrightarrow> v \<noteq> JUndefined \<Longrightarrow> v \<noteq> JStr [] \<Longrightarrow> ser v = Inl e \<Longrightarrow>
     updateStorage b v k ser w = Inr (warn (UpdateAborted k e) w)"
  by (simp add: updateStorage_def)

lemma updateStorage_refused:
  "v \<noteq> JNull \<Longrightarrow> v \<noteq> JUndefined \<Longrightarrow> v \<noteq> JStr [] \<Longrightarrow> ser v = Inr s \<Longrightarrow>
   setItemThrows w b k s = Some e \<Longrightarrow>
     updateStorage b v k ser w = Inr (warn (UpdateAborted k e) (attempted b k s w))"
  by (simp add: updateStorage_def setItem_refused)

lemma updateStorage_stores:
  "v \<noteq> JNull \<Longrightarrow> v \<noteq> JUndefined \<Longrightarrow> v \<noteq> JStr [] \<Longrightarrow> ser v = Inr s \<Longrightarrow>
   setItemThrows w b k s = None \<Longrightarrow>
     updateStorage b v k ser w = Inr (setStoredValue v (written b k s w))"
  by (simp add: updateStorage_def setItem_accepted)

lemma updateStorage_shape:
  "updateStorage b v k ser w = Inr (setStoredValue JNull (removeItem b k w))
       \<and> (v = JNull \<or> v = JUndefined \<or> v = JStr [])
   \<or> (\<exists>e. updateStorage b v k ser w = Inr (warn (UpdateAborted k e) w)
       \<and> v \<noteq> JNull \<and> v \<noteq> JUndefined \<and> v \<noteq> JStr [] \<and> ser v = Inl e)
   \<or> (\<exists>s e. updateStorage b v k ser w = Inr (warn (UpdateAborted k e) (attempted b k s w))
       \<and> v \<noteq> JNull \<and> v \<noteq> JUndefined \<and> v \<noteq> JStr [] \<and> ser v = Inr s)
   \<or> (\<exists>s. updateStorage b v k ser w = Inr (setStoredValue v (written b k s w))
       \<and> v \<noteq> JNull \<and> v \<noteq> JUndefined \<and> v \<noteq> JStr [] \<and> ser v = Inr s)"
proof (cases "v = JNull \<or> v = JUndefined \<or> v = JStr []")
  case True
  then have "updateStorage b v k ser w = Inr (setStoredValue JNull (removeItem b k w))"
    by (rule updateStorage_empty)
  with True show ?thesis by blast
next
  case False
  then have ne: "v \<noteq> JNull" "v \<noteq> JUndefined" "v \<noteq> JStr []" by auto
  show ?thesis
  proof (cases "ser v")
    case (Inl e)
    have "updateStorage b v k ser w = Inr (warn (UpdateAborted k e) w)"
      using ne Inl by (simp add: updateStorage_throws)
    then show ?thesis using ne Inl by blast
  next
    case (Inr s)
    show ?thesis
    proof (cases "setItemThrows w b k s")
      case None
      have "updateStorage b v k ser w = Inr (setStoredValue v (written b k s w))"
        using ne Inr None by (simp add: updateStorage_stores)
      then show ?thesis using ne Inr by blast
    next
      case (Some e)
      have "updateStorage b v k ser w = Inr (warn (UpdateAborted k e) (attempted b k s w))"
        using ne Inr Some by (simp add: updateStorage_refused)
      then show ?thesis using ne Inr by blast
    qed
  qed
qed

lemma updateStorage_returns: "\<exists>w'. updateStorage b v k ser w = Inr w'"
  using updateStorage_shape [of b v k ser w] by blast

subsection \<open>The paths of the initial load\<close>

lemma setInitialValue_usable:
  "getItem w b k = Some r \<Longrightarrow> r \<noteq> [] \<Longrightarrow> deser r = Inr v \<Longrightarrow>
     setInitialValue b k d deser ser w = Inr (True, setStoredValue v w)"
  by (simp add: setInitialValue_def)

lemma setInitialValue_corrupt:
  "getItem w b k = Some r \<Longrightarrow> r \<noteq> [] \<Longrightarrow> deser r = Inl e \<Longrightarrow>
     setInitialValue b k d deser ser w =
       setInitialValue b k d deser ser
         (removeItem b k (warn (ParseWarning SessionStorage k e) w))"
  by (simp add: setInitialValue_def getItem_def removeItem_def warn_def)

lemma setInitialValue_no_default:
  "getItem w b k = None \<or> getItem w b k = Some [] \<Longrightarrow>
     setInitialValue b k JUndefined deser ser w = Inr (True, setStoredValue JNull w)"
  by (auto simp: setInitialValue_def)

lemma setInitialValue_unserializable:
  "getItem w b k = None \<or> getItem w b k = Some [] \<Longrightarrow> d \<noteq> JUndefined \<Longrightarrow>
   ser d = Inl e \<Longrightarrow>
     setInitialValue b k d deser ser w
       = Inr (True, setStoredValue JNull (warn DefaultNotSerializable w))"
  by (auto simp: setInitialValue_def)

lemma setInitialValue_refused:
  "getItem w b k = None \<or> getItem w b k = Some [] \<Longrightarrow> d \<noteq> JUndefined \<Longrightarrow>
   ser d = Inr s \<Longrightarrow> setItemThrows w b k s = Some e \<Longrightarrow>
     setInitialValue b k d deser ser w
       = Inr (True, setStoredValue JNull (warn DefaultNotSerializable (attempted b k s w)))"
  by (auto simp: setInitialValue_def setItem_refused)

lemma setInitialValue_written:
  "getItem w b k = None \<or> getItem w b k = Some [] \<Longrightarrow> d \<noteq> JUndefined \<Longrightarrow>
   ser d = Inr s \<Longrightarrow> setItemThrows w b k s = None \<Longrightarrow>
     setInitialValue b k d deser ser w = Inr (True, setStoredValue d (written b k s w))"
  by (auto simp: setInitialValue_def setItem_accepted)

lemma getItem_removed: "getItem (removeItem b k w) b k = None"
  by (simp add: getItem_def removeItem_def)

lemma getItem_written:
  "getItem (written b k s w) b k = Some s"
  "getItem (setStoredValue x (written b k s w)) b k = Some s"
  by (simp_all add: env_defs)

lemma record_cases:
  obtains (absent) "getItem w b k = None \<or> getItem w b k = Some []"
  | (usable) r v where "getItem w b k = Some r" "r \<noteq> []" "deser r = Inr v"
  | (corrupt) r e where "getItem w b k = Some r" "r \<noteq> []" "deser r = Inl e"
proof (cases "getItem w b k")
  case None
  then show ?thesis using absent by simp
next
  case (Some r)
  show ?thesis
  proof (cases "r = []")
    case True
    with Some show ?thesis using absent by simp
  next
    case False
    with Some show ?thesis using usable corrupt by (cases "deser r") auto
  qed
qed

text \<open>The load on a binding without a usable record ends in one of four ways.\<close>

lemma default_path_shape:
  assumes "getItem w b k = None \<or> getItem w b k = Some []"
  shows "\<exists>w'. setInitialValue b k d deser ser w = Inr (True, w')
           \<and> (w' = setStoredValue JNull w
               \<or> w' = setStoredValue JNull (warn DefaultNotSerializable w)
               \<or> (\<exists>s. w' = setStoredValue JNull (warn DefaultNotSerializable (attempted b k s w))
                        \<and> d \<noteq> JUndefined \<and> ser d = Inr s)
               \<or> (\<exists>s. w' = setStoredValue d (written b k s w)
                        \<and> d \<noteq> JUndefined \<and> ser d = Inr s))"
proof (cases "d = JUndefined")
  case True
  then show ?thesis using assms by (simp add: setInitialValue_no_default)
next
  case False
  show ?thesis
  proof (cases "ser d")
    case (Inl e)
    then show ?thesis using assms False by (simp add: setInitialValue_unserializable)
  next
    case (Inr s)
    show ?thesis
    proof (cases "setItemThrows w b k s")
      case None
      then show ?thesis using assms False Inr by (simp add: setInitialValue_written)
    next
      case (Some e)
      then show ?thesis using assms False Inr by (simp add: setInitialValue_refused)
    qed
  qed
qed

lemma setInitialValue_resolves:
  "\<exists>w'. setInitialValue b k d deser ser w = Inr (True, w')"
proof (cases rule: record_cases [where w = w and b = b and k = k and deser = deser])
  case absent
  then show ?thesis
    using default_path_shape [where w = w and b = b and k = k and d = d and deser = deser
        and ser = ser]
    by blast
next
  case (usable r v)
  then show ?thesis by (simp add: setInitialValue_usable)
next
  case (corrupt r e)
  have gone: "getItem (removeItem b k (warn (ParseWarning SessionStorage k e) w)) b k = None
        \<or> getItem (removeItem b k (warn (ParseWarning SessionStorage k e) w)) b k = Some []"
    by (simp add: getItem_removed)
  have "setInitialValue b k d deser ser w =
          setInitialValue b k d deser ser
            (removeItem b k (warn (ParseWarning SessionStorage k e) w))"
    using corrupt by (simp add: setInitialValue_corrupt)
  then show ?thesis
    using default_path_shape
      [where w = "removeItem b k (warn (ParseWarning SessionStorage k e) w)" and b = b
        and k = k and d = d and deser = deser and ser = ser] gone
    by auto
qed

lemma session_inline_setInitialValue_resolves:
  "\<exists>w'. useSessionState_inline_setInitialValue p w = Inr (True, w')"
  using setInitialValue_resolves by (simp add: session_inline_setInitialValue_eq)

lemma local_inline_setInitialValue_resolves:
  "\<exists>w'. useLocalState_inline_setInitialValue p w = Inr (True, w')"
  by (simp add: useLocalState_inline_setInitialValue_def setItem_def
      split: option.splits sum.splits)

lemma session_effect_returns: "\<exists>w'. useSessionState_effect p w = Inr w' \<and> loading w' = False"
  using setInitialValue_resolves
    [of SessionStorage "key p" "defaultValue p" "deserialize p" "serialize p" w]
  by (auto simp: useSessionState_effect_def setLoading_def)

lemma local_effect_returns: "\<exists>w'. useLocalState_effect p w = Inr w' \<and> loading w' = False"
  using setInitialValue_resolves
    [of LocalStorage "key p" "defaultValue p" "deserialize p" "serialize p" w]
  by (auto simp: useLocalState_effect_def setLoading_def)

lemma local_inline_effect_returns:
  "\<exists>w'. useLocalState_inline_effect p w = Inr w' \<and> loading w' = False"
  using local_inline_setInitialValue_resolves [of p w]
  by (auto simp: useLocalState_inline_effect_def setLoading_def)

lemma handleStorageChange_returns: "\<exists>w'. useLocalState_handleStorageChange p k v w = Inr w'"
  by (simp add: useLocalState_handleStorageChange_def split: option.splits sum.splits)

lemma session_updateValue_throws_iff:
  "(useSessionState_updateValue p req w = Inl e) = (calculateNewValue req (renderedValue w) = Inl e)"
proof (cases "calculateNewValue req (renderedValue w)")
  case (Inl e')
  then show ?thesis by (simp add: useSessionState_updateValue_def)
next
  case (Inr v)
  then show ?thesis
    using updateStorage_returns [of SessionStorage v "key p" "serialize p" w]
    by (auto simp: useSessionState_updateValue_def)
qed

lemma local_updateValue_throws_iff:
  "(useLocalState_updateValue p req w = Inl e) = (calculateNewValue req (renderedValue w) = Inl e)"
proof (cases "calculateNewValue req (renderedValue w)")
  case (Inl e')
  then show ?thesis by (simp add: useLocalState_updateValue_def)
next
  case (Inr v)
  then show ?thesis
    using updateStorage_returns [of LocalStorage v "key p" "serialize p" w]
    by (auto simp: useLocalState_updateValue_def)
qed

subsection \<open>What a call issues on the storage\<close>

lemma newlyIssued_simps:
  "newlyIssued w (setStoredValue v w') = newlyIssued w w'"
  "newlyIssued w (warn dg w') = newlyIssued w w'"
  "newlyIssued w w = []"
  "newlyIssued w (written b k s w) = [SetItem b k s]"
  "newlyIssued w (attempted b k s w) = [SetItem b k s]"
  "newlyIssued w (removeItem b k w) = [RemoveItem b k]"
  "newlyIssued w (written b k s (removeItem b k w)) = [RemoveItem b k, SetItem b k s]"
  "newlyIssued w (attempted b k s (removeItem b k w)) = [RemoveItem b k, SetItem b k s]"
  "newlyIssued w (removeItem b k (warn dg w)) = [RemoveItem b k]"
  "newlyIssued w (written b k s (removeItem b k (warn dg w))) = [RemoveItem b k, SetItem b k s]"
  "newlyIssued w (attempted b k s (removeItem b k (warn dg w)))
     = [RemoveItem b k, SetItem b k s]"
  by (simp_all add: newlyIssued_def env_defs)

lemma updateStorage_writes_only_nonempty:
  assumes "updateStorage b v k ser w = Inr w'" and "SetItem b' k' s \<in> set (newlyIssued w w')"
  shows "v \<noteq> JNull \<and> v \<noteq> JUndefined \<and> v \<noteq> JStr [] \<and> ser v = Inr s \<and> b' = b \<and> k' = k"
  using updateStorage_shape [of b v k ser w] assms
  by (auto simp: newlyIssued_simps)

lemma setInitialValue_undefined_default:
  assumes "setInitialValue b k JUndefined deser ser w = Inr (True, w')"
  shows "SetItem b' k' s \<notin> set (newlyIssued w w')"
proof (cases rule: record_cases [where w = w and b = b and k = k and deser = deser])
  case absent
  then have "w' = setStoredValue JNull w"
    using assms by (simp add: setInitialValue_no_default)
  then show ?thesis by (simp add: newlyIssued_simps)
next
  case (usable r v)
  then have "w' = setStoredValue v w"
    using assms by (simp add: setInitialValue_usable)
  then show ?thesis by (simp add: newlyIssued_simps)
next
  case (corrupt r e)
  then have "w' = setStoredValue JNull
                    (removeItem b k (warn (ParseWarning SessionStorage k e) w))"
    using assms
    by (simp add: setInitialValue_corrupt setInitialValue_no_default getItem_removed)
  then show ?thesis by (simp add: newlyIssued_simps)
qed





lemma session_update_writes_only_nonempty:
  assumes "useSessionState_updateValue p req w = Inr w'"
    and "SetItem b' k' s \<in> set (newlyIssued w w')"
  shows "\<exists>x. calculateNewValue req (renderedValue w) = Inr x
           \<and> x \<noteq> JNull \<and> x \<noteq> JUndefined \<and> x \<noteq> JStr [] \<and> serialize p x = Inr s"
proof (cases "calculateNewValue req (renderedValue w)")
  case (Inl e)
  then show ?thesis using assms(1) by (simp add: useSessionState_updateValue_def)
next
  case (Inr x)
  then have "updateStorage SessionStorage x (key p) (serialize p) w = Inr w'"
    using assms(1) by (simp add: useSessionState_updateValue_def)
  from updateStorage_writes_only_nonempty [OF this assms(2)] Inr show ?thesis by simp
qed

lemma local_update_writes_only_nonempty:
  assumes "useLocalState_updateValue p req w = Inr w'"
    and "SetItem b' k' s \<in> set (newlyIssued w w')"
  shows "\<exists>x. calculateNewValue req (renderedValue w) = Inr x
           \<and> x \<noteq> JNull \<and> x \<noteq> JUndefined \<and> x \<noteq> JStr [] \<and> serialize p x = Inr s"
proof (cases "calculateNewValue req (renderedValue w)")
  case (Inl e)
  then show ?thesis using assms(1) by (simp add: useLocalState_updateValue_def)
next
  case (Inr x)
  then have "updateStorage LocalStorage x (key p) (serialize p) w = Inr w'"
    using assms(1) by (simp add: useLocalState_updateValue_def)
  from updateStorage_writes_only_nonempty [OF this assms(2)] Inr show ?thesis by simp
qed

lemma hook_update_writes_only_nonempty:
  "(useSessionState_updateValue p req w = Inr w'
      \<or> useSessionState_inline_updateValue p req w = Inr w'
      \<or> useLocalState_updateValue p req w = Inr w'
      \<or> useLocalState_inline_updateValue p req w = Inr w')
     \<and> SetItem b' k' s \<in> set (newlyIssued w w')
   \<longrightarrow> (\<exists>x. calculateNewValue req (renderedValue w) = Inr x
           \<and> x \<noteq> JNull \<and> x \<noteq> JUndefined \<and> x \<noteq> JStr [] \<and> serialize p x = Inr s)"
  using session_update_writes_only_nonempty [of p req w w' b' k' s]
    local_update_writes_only_nonempty [of p req w w' b' k' s]
  by (auto simp: session_inline_updateValue_eq local_inline_updateValue_eq)

subsection \<open>Update calls and renders\<close>

text \<open>
  Two update calls made from one render compute from the same value: negating twice
  without a render in between writes the same text twice. With a render in between the
  second call sees the result of the first.
\<close>

lemmas run_defs =
  useSessionState_updateValue_def useSessionState_effect_def
  useSessionState_inline_updateValue_def useSessionState_inline_effect_def
  useSessionState_inline_setInitialValue_def setInitialValue_def updateStorage_def
  setItem_def setItemThrows_def env_defs fixture_defs

lemma updates_from_one_render:
  "issued (fst (run (useSessionState_step (testProps (JBool False)))
             [Rerender False, Update (Updater toggleUpdater), Update (Updater toggleUpdater)]
             (mount (useSessionState_effect (testProps (JBool False)))
                (initialRender noStores))))
     = [SetItem SessionStorage ''testKey'' ''no'', SetItem SessionStorage ''testKey'' ''yes'',
        SetItem SessionStorage ''testKey'' ''yes'']
   \<and> storedValue (fst (run (useSessionState_step (testProps (JBool False)))
             [Rerender False, Update (Updater toggleUpdater), Update (Updater toggleUpdater)]
             (mount (useSessionState_effect (testProps (JBool False)))
                (initialRender noStores)))) = JBool True
   \<and> storedValue (fst (run (useSessionState_step (testProps (JBool False)))
             [Rerender False, Update (Updater toggleUpdater), Rerender False,
              Update (Updater toggleUpdater)]
             (mount (useSessionState_effect (testProps (JBool False)))
                (initialRender noStores)))) = JBool False"
  by (simp add: run_defs)

section \<open>Empty values\<close>

text \<open>
  Claim C1, as amended. Whenever an update computes an empty value (\<open>null\<close>, \<open>undefined\<close>
  or the empty string), in particular for the plain requests \<open>null\<close>, \<open>undefined\<close> and \<open>""\<close>,
  the update removes the key and sets the current value to \<open>null\<close>; every \<open>setItem\<close> that an
  update calls carries the serialization of a value that is not empty. On the initial load
  an \<open>undefined\<close> default is never written. When there is no record under the key, or only
  the empty string, a default other than \<open>undefined\<close>, \<open>null\<close> and the empty string
  included, whose serialization succeeds and whose write the storage accepts is written as
  a record and adopted as the current value.
\<close>

theorem C1_empty_values_remove_the_key:
  "(calculateNewValue req (renderedValue w) = Inr v \<and> (v = JNull \<or> v = JUndefined \<or> v = JStr [])
      \<longrightarrow> useSessionState_updateValue p req w
            = Inr (setStoredValue JNull (removeItem SessionStorage (key p) w))
          \<and> useSessionState_inline_updateValue p req w
            = Inr (setStoredValue JNull (removeItem SessionStorage (key p) w))
          \<and> useLocalState_updateValue p req w
            = Inr (setStoredValue JNull (removeItem LocalStorage (key p) w))
          \<and> useLocalState_inline_updateValue p req w
            = Inr (setStoredValue JNull (removeItem LocalStorage (key p) w)))
   \<and> (lit = JNull \<or> lit = JUndefined \<or> lit = JStr []
      \<longrightarrow> useSessionState_updateValue p (Literal lit) w
            = Inr (setStoredValue JNull (removeItem SessionStorage (key p) w))
          \<and> useSessionState_inline_updateValue p (Literal lit) w
            = Inr (setStoredValue JNull (removeItem SessionStorage (key p) w))
          \<and> useLocalState_updateValue p (Literal lit) w
            = Inr (setStoredValue JNull (removeItem LocalStorage (key p) w))
          \<and> useLocalState_inline_updateValue p (Literal lit) w
            = Inr (setStoredValue JNull (removeItem LocalStorage (key p) w)))
   \<and> getItem (setStoredValue JNull (removeItem b k w)) b k = None
   \<and> storedValue (setStoredValue JNull (removeItem b k w)) = JNull
   \<and> (updateStorage b v k ser w = Inr w' \<and> SetItem b' k' s \<in> set (newlyIssued w w')
      \<longrightarrow> v \<noteq> JNull \<and> v \<noteq> JUndefined \<and> v \<noteq> JStr [] \<and> ser v = Inr s)
   \<and> ((useSessionState_updateValue p req w = Inr w'
          \<or> useSessionState_inline_updateValue p req w = Inr w'
          \<or> useLocalState_updateValue p req w = Inr w'
          \<or> useLocalState_inline_updateValue p req w = Inr w')
        \<and> SetItem b' k' s \<in> set (newlyIssued w w')
      \<longrightarrow> (\<exists>x. calculateNewValue req (renderedValue w) = Inr x
              \<and> x \<noteq> JNull \<and> x \<noteq> JUndefined \<and> x \<noteq> JStr [] \<and> serialize p x = Inr s))
   \<and> (setInitialValue b k JUndefined deser ser w = Inr (True, w')
      \<longrightarrow> SetItem b' k' s \<notin> set (newlyIssued w w'))
   \<and> (d \<noteq> JUndefined \<and> ser d = Inr s \<and> setItemThrows w b k s = None
        \<and> (getItem w b k = None \<or> getItem w b k = Some [])
      \<longrightarrow> setInitialValue b k d deser ser w = Inr (True, setStoredValue d (written b k s w))
          \<and> getItem (setStoredValue d (written b k s w)) b k = Some s
          \<and> storedValue (setStoredValue d (written b k s w)) = d)"
proof -
  have upd: "calculateNewValue req (renderedValue w) = Inr v
               \<and> (v = JNull \<or> v = JUndefined \<or> v = JStr [])
      \<longrightarrow> useSessionState_updateValue p req w
            = Inr (setStoredValue JNull (removeItem SessionStorage (key p) w))
          \<and> useLocalState_updateValue p req w
            = Inr (setStoredValue JNull (removeItem LocalStorage (key p) w))"
    by (auto simp: session_updateValue_computed local_updateValue_computed updateStorage_empty)
  have lit: "lit = JNull \<or> lit = JUndefined \<or> lit = JStr []
      \<longrightarrow> useSessionState_updateValue p (Literal lit) w
            = Inr (setStoredValue JNull (removeItem SessionStorage (key p) w))
          \<and> useLocalState_updateValue p (Literal lit) w
            = Inr (setStoredValue JNull (removeItem LocalStorage (key p) w))"
    by (auto simp: useSessionState_updateValue_def useLocalState_updateValue_def
        updateStorage_empty)
  have frame: "getItem (setStoredValue JNull (removeItem b k w)) b k = None"
    "storedValue (setStoredValue JNull (removeItem b k w)) = JNull"
    "getItem (setStoredValue d (written b k s w)) b k = Some s"
    "storedValue (setStoredValue d (written b k s w)) = d"
    by (simp_all add: env_defs)
  have wr: "updateStorage b v k ser w = Inr w' \<and> SetItem b' k' s \<in> set (newlyIssued w w')
      \<longrightarrow> v \<noteq> JNull \<and> v \<noteq> JUndefined \<and> v \<noteq> JStr [] \<and> ser v = Inr s"
    using updateStorage_writes_only_nonempty [of b v k ser w w' b' k' s] by blast
  have und: "setInitialValue b k JUndefined deser ser w = Inr (True, w')
      \<longrightarrow> SetItem b' k' s \<notin> set (newlyIssued w w')"
    using setInitialValue_undefined_default [of b k deser ser w w' b' k' s] by blast
  have dfl: "d \<noteq> JUndefined \<and> ser d = Inr s \<and> setItemThrows w b k s = None
        \<and> (getItem w b k = None \<or> getItem w b k = Some [])
      \<longrightarrow> setInitialValue b k d deser ser w = Inr (True, setStoredValue d (written b k s w))"
    by (simp add: setInitialValue_written)
  have hook: "(useSessionState_updateValue p req w = Inr w'
          \<or> useSessionState_inline_updateValue p req w = Inr w'
          \<or> useLocalState_updateValue p req w = Inr w'
          \<or> useLocalState_inline_updateValue p req w = Inr w')
        \<and> SetItem b' k' s \<in> set (newlyIssued w w')
      \<longrightarrow> (\<exists>x. calculateNewValue req (renderedValue w) = Inr x
              \<and> x \<noteq> JNull \<and> x \<noteq> JUndefined \<and> x \<noteq> JStr [] \<and> serialize p x = Inr s)"
    by (rule hook_update_writes_only_nonempty)
  show ?thesis
    using upd lit wr hook und dfl
    by (simp only: frame session_inline_updateValue_eq local_inline_updateValue_eq; blast)
qed

theorem C1_witness:
  "calculateNewValue (Literal (JStr []))
       (renderedValue (initialRender (seeded ''testKey'' ''yes''))) = Inr JNull
   \<and> getItem (initialRender (seeded ''testKey'' ''yes'')) SessionStorage ''testKey'' = Some ''yes''
   \<and> useSessionState_updateValue (testProps JUndefined) (Literal (JStr []))
        (initialRender (seeded ''testKey'' ''yes''))
      = Inr (setStoredValue JNull (removeItem SessionStorage ''testKey''
               (initialRender (seeded ''testKey'' ''yes''))))
   \<and> getItem (setStoredValue JNull (removeItem SessionStorage ''testKey''
               (initialRender (seeded ''testKey'' ''yes'')))) SessionStorage ''testKey'' = None
   \<and> getItem (initialRender noStores) LocalStorage ''testKey'' = None
   \<and> strictSerialize (JBool True) = Inr ''true''
   \<and> setItemThrows (initialRender noStores) LocalStorage ''testKey'' ''true'' = None
   \<and> setInitialValue LocalStorage ''testKey'' (JBool True) strictDeserialize strictSerialize
        (initialRender noStores)
      = Inr (True, setStoredValue (JBool True)
               (written LocalStorage ''testKey'' ''true'' (initialRender noStores)))
   \<and> setInitialValue LocalStorage ''testKey'' JUndefined strictDeserialize strictSerialize
        (initialRender noStores)
      = Inr (True, setStoredValue JNull (initialRender noStores))
   \<and> SetItem LocalStorage ''testKey'' ''true''
        \<notin> set (newlyIssued (initialRender noStores)
                 (setStoredValue JNull (initialRender noStores)))"
proof -
  have none: "getItem (initialRender noStores) LocalStorage ''testKey'' = None"
    by (simp add: getItem_def initialRender_def noStores_def)
  have load: "setInitialValue LocalStorage ''testKey'' JUndefined strictDeserialize
                strictSerialize (initialRender noStores)
              = Inr (True, setStoredValue JNull (initialRender noStores))"
    using none by (simp add: setInitialValue_no_default)
  have ser: "strictSerialize (JBool True) = Inr ''true''"
    by (simp add: strictSerialize_def)
  have acc: "setItemThrows (initialRender noStores) LocalStorage ''testKey'' ''true'' = None"
    by (rule setItemThrows_initialRender)
  have some: "getItem (initialRender (seeded ''testKey'' ''yes'')) SessionStorage ''testKey''
                = Some ''yes''"
    by (simp add: getItem_def initialRender_def seeded_def)
  have rv: "renderedValue (initialRender (seeded ''testKey'' ''yes'')) = JNull"
    by (simp add: initialRender_def)
  note update = C1_empty_values_remove_the_key
    [where req = "Literal (JStr [])" and w = "initialRender (seeded ''testKey'' ''yes'')"
       and v = JNull and p = "testProps JUndefined" and lit = "JStr []" and b = SessionStorage
       and k = "''testKey''" and ser = strictSerialize and deser = strictDeserialize
       and d = JUndefined and s = "''true''" and b' = SessionStorage and k' = "''testKey''"
       and w' = "initialRender (seeded ''testKey'' ''yes'')"]
  note initial = C1_empty_values_remove_the_key
    [where req = "Literal JNull" and w = "initialRender noStores"
       and v = JNull and p = "testProps JUndefined" and lit = JNull and b = LocalStorage
       and k = "''testKey''" and ser = strictSerialize and deser = strictDeserialize
       and d = "JBool True" and s = "''true''" and b' = LocalStorage and k' = "''testKey''"
       and w' = "setStoredValue JNull (initialRender noStores)"]
  show ?thesis
    using update initial load ser none some acc rv
    by (simp add: testProps_def)
qed

text \<open>
  The claim as it was stated fails on the default path of the initial load: the default
  \<open>null\<close> passes the guard \<open>defaultValue !== undefined\<close> and its serialization is written.
\<close>

theorem C1_counterexample:
  "strictSerialize JNull = Inr ''null''
   \<and> setInitialValue SessionStorage ''testKey'' JNull strictDeserialize strictSerialize
        (initialRender noStores)
      = Inr (True, setStoredValue JNull
               (written SessionStorage ''testKey'' ''null'' (initialRender noStores)))
   \<and> getItem (setStoredValue JNull
               (written SessionStorage ''testKey'' ''null'' (initialRender noStores)))
        SessionStorage ''testKey'' = Some ''null''
   \<and> issued (setStoredValue JNull
               (written SessionStorage ''testKey'' ''null'' (initialRender noStores)))
      = [SetItem SessionStorage ''testKey'' ''null'']"
proof -
  have none: "getItem (initialRender noStores) SessionStorage ''testKey'' = None
              \<or> getItem (initialRender noStores) SessionStorage ''testKey'' = Some []"
    by (simp add: getItem_def initialRender_def noStores_def)
  have ser: "strictSerialize JNull = Inr ''null''"
    by (simp add: strictSerialize_def)
  have "setInitialValue SessionStorage ''testKey'' JNull strictDeserialize strictSerialize
          (initialRender noStores)
        = Inr (True, setStoredValue JNull
                 (written SessionStorage ''testKey'' ''null'' (initialRender noStores)))"
    using none ser by (simp add: setInitialValue_written setItemThrows_initialRender)
  then show ?thesis
    using ser by (simp add: env_defs initialRender_def noStores_def)
qed

section \<open>The value computed from an update request\<close>

text \<open>
  Claim C2. For a request that is not a function, \<open>calculateNewValue\<close> and the inline code
  of the hooks turn every falsy value (\<open>null\<close>, \<open>undefined\<close>, \<open>0\<close>, \<open>""\<close>, \<open>false\<close>, \<open>NaN\<close>)
  into \<open>null\<close>, so that such an update removes the key instead of storing the value, and
  they pass every truthy value on to the write as it is.
\<close>

theorem C2_falsy_literal_becomes_null:
  "calculateNewValue (Literal v) held = Inr (if truthy v then v else JNull)
   \<and> calculateNewValue (Literal JNull) held = Inr JNull
   \<and> calculateNewValue (Literal JUndefined) held = Inr JNull
   \<and> calculateNewValue (Literal (JNum 0)) held = Inr JNull
   \<and> calculateNewValue (Literal (JStr [])) held = Inr JNull
   \<and> calculateNewValue (Literal (JBool False)) held = Inr JNull
   \<and> calculateNewValue (Literal JNaN) held = Inr JNull
   \<and> (\<not> truthy v \<longrightarrow>
        useSessionState_inline_updateValue p (Literal v) w
          = Inr (setStoredValue JNull (removeItem SessionStorage (key p) w))
        \<and> useSessionState_updateValue p (Literal v) w
          = Inr (setStoredValue JNull (removeItem SessionStorage (key p) w))
        \<and> useLocalState_inline_updateValue p (Literal v) w
          = Inr (setStoredValue JNull (removeItem LocalStorage (key p) w))
        \<and> useLocalState_updateValue p (Literal v) w
          = Inr (setStoredValue JNull (removeItem LocalStorage (key p) w)))
   \<and> (truthy v \<longrightarrow>
        useSessionState_inline_updateValue p (Literal v) w
          = updateStorage SessionStorage v (key p) (serialize p) w
        \<and> useSessionState_updateValue p (Literal v) w
          = updateStorage SessionStorage v (key p) (serialize p) w
        \<and> useLocalState_inline_updateValue p (Literal v) w
          = updateStorage LocalStorage v (key p) (serialize p) w
        \<and> useLocalState_updateValue p (Literal v) w
          = updateStorage LocalStorage v (key p) (serialize p) w)"
  by (simp add: session_inline_updateValue_eq local_inline_updateValue_eq
      useSessionState_updateValue_def useLocalState_updateValue_def updateStorage_empty)

theorem C2_witness:
  "\<not> truthy (JNum 0)
   \<and> getItem (committed (initialRender (seeded ''testKey'' ''yes''))
        (useSessionState_updateValue (testProps (JBool True)) (Literal (JNum 0))
           (initialRender (seeded ''testKey'' ''yes'')))) SessionStorage ''testKey'' = None
   \<and> truthy (JNum 42)
   \<and> getItem (committed (initialRender noStores)
        (useLocalState_inline_updateValue (testProps (JBool True)) (Literal (JNum 42))
           (initialRender noStores))) LocalStorage ''testKey'' = Some ''yes''"
proof -
  have stored: "updateStorage LocalStorage (JNum 42) ''testKey'' yesNoSerialize
                  (initialRender noStores)
                = Inr (setStoredValue (JNum 42)
                         (written LocalStorage ''testKey'' ''yes'' (initialRender noStores)))"
    by (simp add: updateStorage_stores setItemThrows_initialRender yesNoSerialize_def)
  show ?thesis
    using C2_falsy_literal_becomes_null
        [of "JNum 0" JNull "testProps (JBool True)" "initialRender (seeded ''testKey'' ''yes'')"]
      C2_falsy_literal_becomes_null
        [of "JNum 42" JNull "testProps (JBool True)" "initialRender noStores"]
      stored
    by (simp add: env_defs committed_def testProps_def)
qed

section \<open>A write whose serialization fails\<close>

text \<open>
  Claim C3. When an update computes a value that is not empty and the serializer throws on
  it, the update returns normally and changes nothing but the console: the records of the
  storage, the storage calls made, the current value and the loading flag are as before,
  and one diagnostic has been added.
\<close>

theorem C3_failed_serialization_aborts_update:
  assumes "calculateNewValue req (renderedValue w) = Inr v"
    and "v \<noteq> JNull" and "v \<noteq> JUndefined" and "v \<noteq> JStr []"
    and "serialize p v = Inl e"
  shows "useSessionState_updateValue p req w = Inr (warn (UpdateAborted (key p) e) w)
    \<and> useSessionState_inline_updateValue p req w = Inr (warn (UpdateAborted (key p) e) w)
    \<and> useLocalState_updateValue p req w = Inr (warn (UpdateAborted (key p) e) w)
    \<and> useLocalState_inline_updateValue p req w = Inr (warn (UpdateAborted (key p) e) w)
    \<and> updateStorage b v k (serialize p) w = Inr (warn (UpdateAborted k e) w)
    \<and> stores (warn (UpdateAborted k e) w) = stores w
    \<and> issued (warn (UpdateAborted k e) w) = issued w
    \<and> storedValue (warn (UpdateAborted k e) w) = storedValue w
    \<and> renderedValue (warn (UpdateAborted k e) w) = renderedValue w
    \<and> loading (warn (UpdateAborted k e) w) = loading w
    \<and> console (warn (UpdateAborted k e) w) = console w @ [UpdateAborted k e]"
proof -
  have upd: "updateStorage b' v k' (serialize p) w = Inr (warn (UpdateAborted k' e) w)" for b' k'
    using assms(2-5) by (simp add: updateStorage_throws)
  show ?thesis
    using assms(1) upd
    by (simp add: session_inline_updateValue_eq local_inline_updateValue_eq
        session_updateValue_computed local_updateValue_computed warn_def)
qed

theorem C3_witness:
  "calculateNewValue (Literal (JObj [])) (renderedValue (initialRender noStores)) = Inr (JObj [])
   \<and> serialize (strictProps JUndefined) (JObj []) = Inl (Thrown ''TypeError'')
   \<and> useSessionState_updateValue (strictProps JUndefined) (Literal (JObj []))
        (initialRender noStores)
      = Inr (warn (UpdateAborted ''testKey'' (Thrown ''TypeError'')) (initialRender noStores))"
proof -
  have c: "calculateNewValue (Literal (JObj [])) (renderedValue (initialRender noStores))
             = Inr (JObj [])"
    by simp
  have s: "serialize (strictProps JUndefined) (JObj []) = Inl (Thrown ''TypeError'')"
    by (simp add: strictProps_def strictSerialize_def)
  show ?thesis
    using c s
      C3_failed_serialization_aborts_update
        [where req = "Literal (JObj [])" and w = "initialRender noStores" and v = "JObj []"
           and p = "strictProps JUndefined" and e = "Thrown ''TypeError''"
           and b = SessionStorage and k = "''testKey''"]
    by (simp add: strictProps_def)
qed

section \<open>Exceptions that reach the consumer\<close>

text \<open>
  Claim C4, as amended. The mount effect, the storage listener and every update with a
  plain value return normally whatever the stored record, the default, the serializer, the
  deserializer and the storage's \<open>setItem\<close> do. An update with an updater function throws
  exactly when the updater throws, and then throws the updater's exception: the updater is
  called outside any \<open>try\<close>. In \<open>setInitialValue\<close>, \<open>updateStorage\<close> and the listener every
  caught failure prints a diagnostic, and then
  \<^item> a record that is not empty and fails to deserialize is removed, and the load goes on
    as it does on a storage without that record (so it ends with the default when there is
    one that can be persisted, not with \<open>null\<close>);
  \<^item> a default that cannot be serialized, or whose write the storage refuses, ends with
    the current value \<open>null\<close> and no record written;
  \<^item> an update whose value cannot be serialized, or whose write the storage refuses,
    leaves the records and the current value as they were;
  \<^item> a notification whose new value fails to deserialize leaves the records and the
    current value as they were.
\<close>

theorem C4_caught_failures_and_escaping_updaters:
  "(\<exists>w'. useSessionState_effect p w = Inr w')
   \<and> (\<exists>w'. useSessionState_inline_effect p w = Inr w')
   \<and> (\<exists>w'. useLocalState_effect p w = Inr w')
   \<and> (\<exists>w'. useLocalState_inline_effect p w = Inr w')
   \<and> (\<exists>w'. useLocalState_handleStorageChange p ek nv w = Inr w')
   \<and> (\<exists>w'. useLocalState_inline_handleStorageChange p ek nv w = Inr w')
   \<and> (\<exists>w'. useSessionState_updateValue p (Literal v) w = Inr w')
   \<and> (\<exists>w'. useSessionState_inline_updateValue p (Literal v) w = Inr w')
   \<and> (\<exists>w'. useLocalState_updateValue p (Literal v) w = Inr w')
   \<and> (\<exists>w'. useLocalState_inline_updateValue p (Literal v) w = Inr w')
   \<and> (useSessionState_updateValue p (Updater f) w = Inl e \<longleftrightarrow> f (renderedValue w) = Inl e)
   \<and> (useSessionState_inline_updateValue p (Updater f) w = Inl e
        \<longleftrightarrow> f (renderedValue w) = Inl e)
   \<and> (useLocalState_updateValue p (Updater f) w = Inl e \<longleftrightarrow> f (renderedValue w) = Inl e)
   \<and> (useLocalState_inline_updateValue p (Updater f) w = Inl e
        \<longleftrightarrow> f (renderedValue w) = Inl e)
   \<and> (getItem w b k = Some r \<and> r \<noteq> [] \<and> deser r = Inl e
      \<longrightarrow> setInitialValue b k d deser ser w
            = setInitialValue b k d deser ser
                (removeItem b k (warn (ParseWarning SessionStorage k e) w)))
   \<and> ((getItem w b k = None \<or> getItem w b k = Some []) \<and> d \<noteq> JUndefined \<and> ser d = Inl e
      \<longrightarrow> setInitialValue b k d deser ser w
            = Inr (True, setStoredValue JNull (warn DefaultNotSerializable w)))
   \<and> ((getItem w b k = None \<or> getItem w b k = Some []) \<and> d \<noteq> JUndefined \<and> ser d = Inr s
        \<and> setItemThrows w b k s = Some e
      \<longrightarrow> setInitialValue b k d deser ser w
            = Inr (True, setStoredValue JNull
                     (warn DefaultNotSerializable (attempted b k s w))))
   \<and> (x \<noteq> JNull \<and> x \<noteq> JUndefined \<and> x \<noteq> JStr [] \<and> ser x = Inl e
      \<longrightarrow> updateStorage b x k ser w = Inr (warn (UpdateAborted k e) w))
   \<and> (x \<noteq> JNull \<and> x \<noteq> JUndefined \<and> x \<noteq> JStr [] \<and> ser x = Inr s
        \<and> setItemThrows w b k s = Some e
      \<longrightarrow> updateStorage b x k ser w = Inr (warn (UpdateAborted k e) (attempted b k s w)))
   \<and> (nv = Some raw \<and> raw \<noteq> [] \<and> deserialize p raw = Inl e
      \<longrightarrow> useLocalState_handleStorageChange p (Some (key p)) nv w
            = Inr (warn (AutoUpdateAborted (key p) e) w))
   \<and> stores (attempted b k s w) = stores w
   \<and> storedValue (attempted b k s w) = storedValue w
   \<and> stores (warn dg w) = stores w
   \<and> storedValue (warn dg w) = storedValue w
   \<and> console (warn dg w) = console w @ [dg]"
proof -
  have lit_s: "\<exists>w'. useSessionState_updateValue p (Literal v) w = Inr w'"
    by (simp add: useSessionState_updateValue_def updateStorage_returns)
  have lit_l: "\<exists>w'. useLocalState_updateValue p (Literal v) w = Inr w'"
    by (simp add: useLocalState_updateValue_def updateStorage_returns)
  have returns: "(\<exists>w'. useSessionState_effect p w = Inr w')
   \<and> (\<exists>w'. useSessionState_inline_effect p w = Inr w')
   \<and> (\<exists>w'. useLocalState_effect p w = Inr w')
   \<and> (\<exists>w'. useLocalState_inline_effect p w = Inr w')
   \<and> (\<exists>w'. useLocalState_handleStorageChange p ek nv w = Inr w')
   \<and> (\<exists>w'. useLocalState_inline_handleStorageChange p ek nv w = Inr w')
   \<and> (\<exists>w'. useSessionState_updateValue p (Literal v) w = Inr w')
   \<and> (\<exists>w'. useSessionState_inline_updateValue p (Literal v) w = Inr w')
   \<and> (\<exists>w'. useLocalState_updateValue p (Literal v) w = Inr w')
   \<and> (\<exists>w'. useLocalState_inline_updateValue p (Literal v) w = Inr w')"
    using session_effect_returns [of p w] local_effect_returns [of p w]
      local_inline_effect_returns [of p w] handleStorageChange_returns [of p ek nv w]
      lit_s lit_l
    by (auto simp: session_inline_effect_eq session_inline_updateValue_eq
        local_inline_updateValue_eq local_inline_handleStorageChange_eq)
  have escapes: "(useSessionState_updateValue p (Updater f) w = Inl e
        \<longleftrightarrow> f (renderedValue w) = Inl e)
   \<and> (useSessionState_inline_updateValue p (Updater f) w = Inl e
        \<longleftrightarrow> f (renderedValue w) = Inl e)
   \<and> (useLocalState_updateValue p (Updater f) w = Inl e \<longleftrightarrow> f (renderedValue w) = Inl e)
   \<and> (useLocalState_inline_updateValue p (Updater f) w = Inl e
        \<longleftrightarrow> f (renderedValue w) = Inl e)"
    using session_updateValue_throws_iff [of p "Updater f" w e]
      local_updateValue_throws_iff [of p "Updater f" w e]
    by (simp add: session_inline_updateValue_eq local_inline_updateValue_eq)
  have corrupt: "getItem w b k = Some r \<and> r \<noteq> [] \<and> deser r = Inl e
      \<longrightarrow> setInitialValue b k d deser ser w
            = setInitialValue b k d deser ser
                (removeItem b k (warn (ParseWarning SessionStorage k e) w))"
    by (simp add: setInitialValue_corrupt)
  have unser: "(getItem w b k = None \<or> getItem w b k = Some []) \<and> d \<noteq> JUndefined
        \<and> ser d = Inl e
      \<longrightarrow> setInitialValue b k d deser ser w
            = Inr (True, setStoredValue JNull (warn DefaultNotSerializable w))"
    by (simp add: setInitialValue_unserializable)
  have refused: "(getItem w b k = None \<or> getItem w b k = Some []) \<and> d \<noteq> JUndefined
        \<and> ser d = Inr s \<and> setItemThrows w b k s = Some e
      \<longrightarrow> setInitialValue b k d deser ser w
            = Inr (True, setStoredValue JNull
                     (warn DefaultNotSerializable (attempted b k s w)))"
    by (simp add: setInitialValue_refused)
  have upd1: "x \<noteq> JNull \<and> x \<noteq> JUndefined \<and> x \<noteq> JStr [] \<and> ser x = Inl e
      \<longrightarrow> updateStorage b x k ser w = Inr (warn (UpdateAborted k e) w)"
    by (simp add: updateStorage_throws)
  have upd2: "x \<noteq> JNull \<and> x \<noteq> JUndefined \<and> x \<noteq> JStr [] \<and> ser x = Inr s
        \<and> setItemThrows w b k s = Some e
      \<longrightarrow> updateStorage b x k ser w = Inr (warn (UpdateAborted k e) (attempted b k s w))"
    by (simp add: updateStorage_refused)
  have listen: "nv = Some raw \<and> raw \<noteq> [] \<and> deserialize p raw = Inl e
      \<longrightarrow> useLocalState_handleStorageChange p (Some (key p)) nv w
            = Inr (warn (AutoUpdateAborted (key p) e) w)"
    by (simp add: useLocalState_handleStorageChange_def)
  have frame: "stores (attempted b k s w) = stores w"
    "storedValue (attempted b k s w) = storedValue w"
    "stores (warn dg w) = stores w"
    "storedValue (warn dg w) = storedValue w"
    "console (warn dg w) = console w @ [dg]"
    by (simp_all add: env_defs)
  show ?thesis
    using returns escapes corrupt unser refused upd1 upd2 listen
    by (simp only: frame; blast)
qed

theorem C4_witness:
  "toggleUpdater (renderedValue (initialRender noStores)) = Inr (JBool True)
   \<and> useSessionState_updateValue (testProps JUndefined) (Updater toggleUpdater)
        (initialRender noStores) \<noteq> Inl (Thrown ''updater failed'')
   \<and> getItem (initialRender (seeded ''testKey'' ''invalid JSON'')) SessionStorage ''testKey''
       = Some ''invalid JSON''
   \<and> strictDeserialize ''invalid JSON'' = Inl (Thrown ''SyntaxError'')
   \<and> setInitialValue SessionStorage ''testKey'' JUndefined strictDeserialize strictSerialize
        (initialRender (seeded ''testKey'' ''invalid JSON''))
      = setInitialValue SessionStorage ''testKey'' JUndefined strictDeserialize strictSerialize
          (removeItem SessionStorage ''testKey''
             (warn (ParseWarning SessionStorage ''testKey'' (Thrown ''SyntaxError''))
                (initialRender (seeded ''testKey'' ''invalid JSON''))))"
proof -
  have rec: "getItem (initialRender (seeded ''testKey'' ''invalid JSON'')) SessionStorage
               ''testKey'' = Some ''invalid JSON''"
    by (simp add: getItem_def initialRender_def seeded_def)
  have des: "strictDeserialize ''invalid JSON'' = Inl (Thrown ''SyntaxError'')"
    by (simp add: strictDeserialize_def)
  have tog: "toggleUpdater (renderedValue (initialRender noStores)) = Inr (JBool True)"
    by (simp add: toggleUpdater_def initialRender_def)
  note updater = C4_caught_failures_and_escaping_updaters
    [where p = "testProps JUndefined" and w = "initialRender noStores" and ek = None
       and nv = None and v = JNull and f = toggleUpdater and e = "Thrown ''updater failed''"
       and b = SessionStorage and k = "''testKey''" and r = "''invalid JSON''"
       and deser = strictDeserialize and d = JUndefined and ser = strictSerialize
       and s = "''true''" and x = JNull and raw = "''yes''" and dg = DefaultNotSerializable]
  note load = C4_caught_failures_and_escaping_updaters
    [where p = "testProps JUndefined" and w = "initialRender (seeded ''testKey'' ''invalid JSON'')"
       and ek = None and nv = None and v = JNull and f = toggleUpdater
       and e = "Thrown ''SyntaxError''"
       and b = SessionStorage and k = "''testKey''" and r = "''invalid JSON''"
       and deser = strictDeserialize and d = JUndefined and ser = strictSerialize
       and s = "''true''" and x = JNull and raw = "''yes''" and dg = DefaultNotSerializable]
  have esc: "useSessionState_updateValue (testProps JUndefined) (Updater toggleUpdater)
        (initialRender noStores) \<noteq> Inl (Thrown ''updater failed'')"
    using updater tog by simp
  have cont: "setInitialValue SessionStorage ''testKey'' JUndefined strictDeserialize strictSerialize
        (initialRender (seeded ''testKey'' ''invalid JSON''))
      = setInitialValue SessionStorage ''testKey'' JUndefined strictDeserialize strictSerialize
          (removeItem SessionStorage ''testKey''
             (warn (ParseWarning SessionStorage ''testKey'' (Thrown ''SyntaxError''))
                (initialRender (seeded ''testKey'' ''invalid JSON''))))"
    using load rec des by blast
  show ?thesis
    using rec des tog esc cont by blast
qed

text \<open>
  The claim as it was stated fails twice. An updater that throws: the exception leaves the
  update function of every variant. A corrupt record with a default: the failure ends
  neither with \<open>null\<close> nor without effect, the default is written and adopted.
\<close>

theorem C4_counterexample:
  "useSessionState_updateValue (testProps JUndefined) (Updater throwingUpdater)
      (initialRender noStores) = Inl (Thrown ''updater failed'')
   \<and> useLocalState_updateValue (testProps JUndefined) (Updater throwingUpdater)
      (initialRender noStores) = Inl (Thrown ''updater failed'')
   \<and> snd (run (useSessionState_inline_step (testProps JUndefined))
            [Update (Updater throwingUpdater)]
            (mount (useSessionState_inline_effect (testProps JUndefined))
               (initialRender noStores)))
      = [Thrown ''updater failed'']
   \<and> strictDeserialize ''invalid JSON'' = Inl (Thrown ''SyntaxError'')
   \<and> setInitialValue SessionStorage ''testKey'' (JBool True) strictDeserialize strictSerialize
        (initialRender (seeded ''testKey'' ''invalid JSON''))
      = Inr (True, setStoredValue (JBool True) (written SessionStorage ''testKey'' ''true''
               (removeItem SessionStorage ''testKey''
                  (warn (ParseWarning SessionStorage ''testKey'' (Thrown ''SyntaxError''))
                     (initialRender (seeded ''testKey'' ''invalid JSON''))))))
   \<and> storedValue (setStoredValue (JBool True) (written SessionStorage ''testKey'' ''true''
               (removeItem SessionStorage ''testKey''
                  (warn (ParseWarning SessionStorage ''testKey'' (Thrown ''SyntaxError''))
                     (initialRender (seeded ''testKey'' ''invalid JSON'')))))) = JBool True
   \<and> getItem (setStoredValue (JBool True) (written SessionStorage ''testKey'' ''true''
               (removeItem SessionStorage ''testKey''
                  (warn (ParseWarning SessionStorage ''testKey'' (Thrown ''SyntaxError''))
                     (initialRender (seeded ''testKey'' ''invalid JSON''))))))
        SessionStorage ''testKey'' = Some ''true''"
proof -
  have thrown: "useSessionState_updateValue (testProps JUndefined) (Updater throwingUpdater)
      (initialRender noStores) = Inl (Thrown ''updater failed'')"
    "useLocalState_updateValue (testProps JUndefined) (Updater throwingUpdater)
      (initialRender noStores) = Inl (Thrown ''updater failed'')"
    by (simp_all add: useSessionState_updateValue_def useLocalState_updateValue_def
        throwingUpdater_def)
  have mounted: "\<exists>w'. mount (useSessionState_inline_effect (testProps JUndefined))
                  (initialRender noStores) = (w', [])"
    using session_effect_returns [of "testProps JUndefined" "initialRender noStores"]
    by (auto simp: mount_def session_inline_effect_eq)
  have escaped: "snd (run (useSessionState_inline_step (testProps JUndefined))
            [Update (Updater throwingUpdater)]
            (mount (useSessionState_inline_effect (testProps JUndefined))
               (initialRender noStores)))
      = [Thrown ''updater failed'']"
    using mounted
    by (auto simp: session_inline_updateValue_eq useSessionState_updateValue_def
        throwingUpdater_def)
  have des: "strictDeserialize ''invalid JSON'' = Inl (Thrown ''SyntaxError'')"
    by (simp add: strictDeserialize_def)
  have rec: "getItem (initialRender (seeded ''testKey'' ''invalid JSON'')) SessionStorage
               ''testKey'' = Some ''invalid JSON''"
    by (simp add: getItem_def initialRender_def seeded_def)
  have acc: "setItemThrows (removeItem SessionStorage ''testKey''
                  (warn (ParseWarning SessionStorage ''testKey'' (Thrown ''SyntaxError''))
                     (initialRender (seeded ''testKey'' ''invalid JSON''))))
               SessionStorage ''testKey'' ''true'' = None"
    by (simp add: setItemThrows_def removeItem_def warn_def initialRender_def)
  have load: "setInitialValue SessionStorage ''testKey'' (JBool True) strictDeserialize
        strictSerialize (initialRender (seeded ''testKey'' ''invalid JSON''))
      = Inr (True, setStoredValue (JBool True) (written SessionStorage ''testKey'' ''true''
               (removeItem SessionStorage ''testKey''
                  (warn (ParseWarning SessionStorage ''testKey'' (Thrown ''SyntaxError''))
                     (initialRender (seeded ''testKey'' ''invalid JSON''))))))"
    using rec des acc
    by (simp add: setInitialValue_corrupt setInitialValue_written getItem_removed
        strictSerialize_def)
  have frame: "storedValue (setStoredValue (JBool True) y) = JBool True"
    "getItem (setStoredValue (JBool True) (written SessionStorage ''testKey'' ''true'' y))
        SessionStorage ''testKey'' = Some ''true''" for y
    by (simp_all add: env_defs)
  show ?thesis
    using thrown escaped des load by (simp only: frame; simp)
qed

section \<open>The initial load\<close>







section \<open>The storage listener of the local hook\<close>




section \<open>Round trip of a stored value\<close>

text \<open>
  Claim C8, as amended. Let \<open>v\<close> be a value accepted by an update: a truthy plain value, or
  a value other than \<open>null\<close>, \<open>undefined\<close> and the empty string returned by an updater.
  When \<open>serialize(v)\<close> returns \<open>s\<close>, \<open>deserialize(s)\<close> returns \<open>v\<close> and the storage's \<open>setItem\<close>
  does not throw on the write, then right after the update the record under the key is
  \<open>s\<close>, it deserializes to \<open>v\<close>, and the current value is \<open>v\<close>.
\<close>

theorem C8_stored_record_round_trips:
  assumes "req = Literal v \<and> truthy v
           \<or> req = Updater f \<and> f (renderedValue w) = Inr v
               \<and> v \<noteq> JNull \<and> v \<noteq> JUndefined \<and> v \<noteq> JStr []"
    and "serialize p v = Inr s" and "deserialize p s = Inr v"
  shows "(setItemThrows w SessionStorage (key p) s = None \<longrightarrow>
           useSessionState_updateValue p req w
             = Inr (setStoredValue v (written SessionStorage (key p) s w))
           \<and> useSessionState_inline_updateValue p req w
             = Inr (setStoredValue v (written SessionStorage (key p) s w)))
    \<and> (setItemThrows w LocalStorage (key p) s = None \<longrightarrow>
           useLocalState_updateValue p req w
             = Inr (setStoredValue v (written LocalStorage (key p) s w))
           \<and> useLocalState_inline_updateValue p req w
             = Inr (setStoredValue v (written LocalStorage (key p) s w)))
    \<and> (case getItem (setStoredValue v (written b (key p) s w)) b (key p) of
          None \<Rightarrow> False
        | Some record \<Rightarrow> deserialize p record = Inr v)
    \<and> storedValue (setStoredValue v (written b (key p) s w)) = v"
proof -
  have computed: "calculateNewValue req (renderedValue w) = Inr v"
    using assms(1) by auto
  have ne: "v \<noteq> JNull" "v \<noteq> JUndefined" "v \<noteq> JStr []"
    using assms(1) by auto
  have upd: "setItemThrows w b' (key p) s = None \<longrightarrow>
               updateStorage b' v (key p) (serialize p) w
                 = Inr (setStoredValue v (written b' (key p) s w))" for b'
    using ne assms(2) by (simp add: updateStorage_stores)
  have sv: "storedValue (setStoredValue v (written b (key p) s w)) = v"
    by (simp add: env_defs)
  show ?thesis
    using computed assms(3) upd sv
    by (simp add: session_inline_updateValue_eq local_inline_updateValue_eq
        session_updateValue_computed local_updateValue_computed getItem_written)
qed

theorem C8_witness:
  "truthy (JBool True)
   \<and> toggleUpdater (renderedValue (initialRender noStores)) = Inr (JBool True)
   \<and> serialize (testProps (JBool False)) (JBool True) = Inr ''yes''
   \<and> deserialize (testProps (JBool False)) ''yes'' = Inr (JBool True)
   \<and> setItemThrows (initialRender noStores) SessionStorage ''testKey'' ''yes'' = None
   \<and> useSessionState_updateValue (testProps (JBool False)) (Literal (JBool True))
        (initialRender noStores)
      = Inr (setStoredValue (JBool True)
               (written SessionStorage ''testKey'' ''yes'' (initialRender noStores)))
   \<and> useSessionState_updateValue (testProps (JBool False)) (Updater toggleUpdater)
        (initialRender noStores)
      = Inr (setStoredValue (JBool True)
               (written SessionStorage ''testKey'' ''yes'' (initialRender noStores)))"
proof -
  have t: "toggleUpdater (renderedValue (initialRender noStores)) = Inr (JBool True)"
    by (simp add: toggleUpdater_def initialRender_def)
  have s: "serialize (testProps (JBool False)) (JBool True) = Inr ''yes''"
    by (simp add: testProps_def yesNoSerialize_def)
  have d: "deserialize (testProps (JBool False)) ''yes'' = Inr (JBool True)"
    by (simp add: testProps_def yesNoDeserialize_def)
  have a: "setItemThrows (initialRender noStores) SessionStorage ''testKey'' ''yes'' = None"
    by (rule setItemThrows_initialRender)
  have k: "key (testProps (JBool False)) = ''testKey''"
    by (simp add: testProps_def)
  have lit: "useSessionState_updateValue (testProps (JBool False)) (Literal (JBool True))
        (initialRender noStores)
      = Inr (setStoredValue (JBool True)
               (written SessionStorage ''testKey'' ''yes'' (initialRender noStores)))"
    using C8_stored_record_round_trips
      [where req = "Literal (JBool True)" and v = "JBool True" and f = toggleUpdater
         and w = "initialRender noStores" and p = "testProps (JBool False)" and s = "''yes''"
         and b = SessionStorage] s d a
    by (simp add: k)
  have upd: "useSessionState_updateValue (testProps (JBool False)) (Updater toggleUpdater)
        (initialRender noStores)
      = Inr (setStoredValue (JBool True)
               (written SessionStorage ''testKey'' ''yes'' (initialRender noStores)))"
    using C8_stored_record_round_trips
      [where req = "Updater toggleUpdater" and v = "JBool True" and f = toggleUpdater
         and w = "initialRender noStores" and p = "testProps (JBool False)" and s = "''yes''"
         and b = SessionStorage] t s d a
    by (simp add: k)
  show ?thesis
    using t s d a lit upd by simp
qed

text \<open>
  The claim as it was stated fails when the storage refuses the write: \<open>update(true)\<close> on a
  full storage leaves no record and the old value, although \<open>true\<close> round-trips through the
  serializer pair and the serializer does not throw.
\<close>

theorem C8_counterexample:
  "serialize (testProps JUndefined) (JBool True) = Inr ''yes''
   \<and> deserialize (testProps JUndefined) ''yes'' = Inr (JBool True)
   \<and> useSessionState_updateValue (testProps JUndefined) (Literal (JBool True))
        (quotaExceeded (initialRender noStores))
      = Inr (warn (UpdateAborted ''testKey'' (Thrown ''QuotaExceededError''))
               (attempted SessionStorage ''testKey'' ''yes''
                  (quotaExceeded (initialRender noStores))))
   \<and> getItem (warn (UpdateAborted ''testKey'' (Thrown ''QuotaExceededError''))
               (attempted SessionStorage ''testKey'' ''yes''
                  (quotaExceeded (initialRender noStores)))) SessionStorage ''testKey'' = None
   \<and> storedValue (warn (UpdateAborted ''testKey'' (Thrown ''QuotaExceededError''))
               (attempted SessionStorage ''testKey'' ''yes''
                  (quotaExceeded (initialRender noStores)))) = JNull"
proof -
  have s: "serialize (testProps JUndefined) (JBool True) = Inr ''yes''"
    by (simp add: testProps_def yesNoSerialize_def)
  have d: "deserialize (testProps JUndefined) ''yes'' = Inr (JBool True)"
    by (simp add: testProps_def yesNoDeserialize_def)
  have k: "key (testProps JUndefined) = ''testKey''"
    by (simp add: testProps_def)
  have upd: "useSessionState_updateValue (testProps JUndefined) (Literal (JBool True))
        (quotaExceeded (initialRender noStores))
      = Inr (warn (UpdateAborted ''testKey'' (Thrown ''QuotaExceededError''))
               (attempted SessionStorage ''testKey'' ''yes''
                  (quotaExceeded (initialRender noStores))))"
    using s
    by (simp add: useSessionState_updateValue_def updateStorage_refused
        setItemThrows_quotaExceeded k)
  have frame: "getItem (warn (UpdateAborted ''testKey'' (Thrown ''QuotaExceededError''))
               (attempted SessionStorage ''testKey'' ''yes''
                  (quotaExceeded (initialRender noStores)))) SessionStorage ''testKey'' = None"
    "storedValue (warn (UpdateAborted ''testKey'' (Thrown ''QuotaExceededError''))
               (attempted SessionStorage ''testKey'' ''yes''
                  (quotaExceeded (initialRender noStores)))) = JNull"
    by (simp_all add: env_defs quotaExceeded_def initialRender_def noStores_def)
  show ?thesis
    using s d upd frame by blast
qed

section \<open>The loading flag\<close>

text \<open>
  Claim C9. The initial load returns \<open>true\<close> on every path, in the helper and in both
  inline copies, so the mount effect of each of the four hooks returns with the loading
  flag \<open>false\<close>, for every stored record, default, serializer and deserializer.
\<close>

theorem C9_initial_load_always_resolves:
  "(\<exists>w'. setInitialValue b k d deser ser w = Inr (True, w'))
   \<and> (\<exists>w'. useSessionState_inline_setInitialValue p w = Inr (True, w'))
   \<and> (\<exists>w'. useLocalState_inline_setInitialValue p w = Inr (True, w'))
   \<and> (\<exists>w'. useSessionState_effect p w = Inr w' \<and> loading w' = False)
   \<and> (\<exists>w'. useSessionState_inline_effect p w = Inr w' \<and> loading w' = False)
   \<and> (\<exists>w'. useLocalState_effect p w = Inr w' \<and> loading w' = False)
   \<and> (\<exists>w'. useLocalState_inline_effect p w = Inr w' \<and> loading w' = False)"
  using setInitialValue_resolves [of b k d deser ser w]
    session_effect_returns [of p w] local_effect_returns [of p w]
    local_inline_effect_returns [of p w] local_inline_setInitialValue_resolves [of p w]
    session_inline_setInitialValue_resolves [of p w]
  by (simp add: session_inline_effect_eq)

section \<open>The inline hooks against the refactored hooks\<close>

lemma session_step_eq:
  "ev \<noteq> Rerender True \<Longrightarrow> useSessionState_inline_step p ev w = useSessionState_step p ev w"
  by (cases ev) (simp_all add: session_inline_updateValue_eq)

lemma run_session_eq:
  "Rerender True \<notin> set evs \<Longrightarrow>
     run (useSessionState_inline_step p) evs acc = run (useSessionState_step p) evs acc"
proof (induction evs arbitrary: acc)
  case Nil
  show ?case by simp
next
  case (Cons ev evs)
  obtain w escaped where acc: "acc = (w, escaped)" by (cases acc)
  from Cons.prems have ev: "ev \<noteq> Rerender True" and rest: "Rerender True \<notin> set evs"
    by auto
  show ?case
    using Cons.IH [OF rest] session_step_eq [OF ev, of p w]
    by (simp add: acc split: sum.splits)
qed

lemma agree_refl: "agree w w"
  by (simp add: agree_def)

lemma agree_frame:
  "agree w1 w2 \<Longrightarrow> agree (warn d1 w1) (warn d2 w2)"
  "agree w1 w2 \<Longrightarrow> agree (warn d1 w1) w2"
  "agree w1 w2 \<Longrightarrow> agree (setStoredValue v w1) (setStoredValue v w2)"
  "agree w1 w2 \<Longrightarrow> agree (setLoading l w1) (setLoading l w2)"
  "agree w1 w2 \<Longrightarrow> agree (removeItem b k w1) (removeItem b k w2)"
  "agree w1 w2 \<Longrightarrow> agree (written b k s w1) (written b k s w2)"
  "agree w1 w2 \<Longrightarrow> agree (attempted b k s w1) (attempted b k s w2)"
  "agree w1 w2 \<Longrightarrow> agree (render w1) (render w2)"
  by (simp_all add: agree_def env_defs)

lemma agree_reads:
  assumes "agree w1 w2"
  shows "getItem w1 b k = getItem w2 b k" "setItemThrows w1 b k s = setItemThrows w2 b k s"
    "renderedValue w1 = renderedValue w2"
  using assms by (simp_all add: agree_def getItem_def setItemThrows_def)

lemma agree_setItem:
  assumes "agree w1 w2"
  shows "fst (setItem b k s w1) = fst (setItem b k s w2)
         \<and> agree (snd (setItem b k s w1)) (snd (setItem b k s w2))"
  using assms agree_reads(2) [OF assms, of b k s]
  by (cases "setItemThrows w2 b k s") (simp_all add: setItem_def agree_frame)

text \<open>
  The inline load of the local hook prints "localStorage" where the helper prints
  "sessionStorage"; otherwise the two are the same code.
\<close>

lemma local_inline_default_path:
  assumes "getItem w b k = None \<or> getItem w b k = Some []" and "b = LocalStorage"
    and "k = key p"
  shows "useLocalState_inline_setInitialValue p w
           = setInitialValue b k (defaultValue p) (deserialize p) (serialize p) w"
  using assms
  by (auto simp: useLocalState_inline_setInitialValue_def setInitialValue_def)

lemma local_inline_usable:
  assumes "getItem w LocalStorage (key p) = Some r" and "r \<noteq> []"
    and "deserialize p r = Inr v"
  shows "useLocalState_inline_setInitialValue p w = Inr (True, setStoredValue v w)"
  using assms by (simp add: useLocalState_inline_setInitialValue_def)

lemma local_inline_corrupt:
  assumes "getItem w LocalStorage (key p) = Some r" and "r \<noteq> []"
    and "deserialize p r = Inl e"
  shows "useLocalState_inline_setInitialValue p w =
           useLocalState_inline_setInitialValue p
             (removeItem LocalStorage (key p) (warn (ParseWarning LocalStorage (key p) e) w))"
  using assms
  by (simp add: useLocalState_inline_setInitialValue_def getItem_def removeItem_def warn_def)

lemma agree_default_path:
  assumes "agree w1 w2" and "getItem w2 b k = None \<or> getItem w2 b k = Some []"
  shows "\<exists>x y. setInitialValue b k d deser ser w1 = Inr (True, x)
           \<and> setInitialValue b k d deser ser w2 = Inr (True, y) \<and> agree x y"
proof -
  have absent1: "getItem w1 b k = None \<or> getItem w1 b k = Some []"
    using assms agree_reads(1) [OF assms(1), of b k] by simp
  show ?thesis
  proof (cases "d = JUndefined")
    case True
    then show ?thesis
      using assms absent1 by (simp add: setInitialValue_no_default agree_frame)
  next
    case False
    show ?thesis
    proof (cases "ser d")
      case (Inl e)
      then show ?thesis
        using assms absent1 False by (simp add: setInitialValue_unserializable agree_frame)
    next
      case (Inr s)
      show ?thesis
      proof (cases "setItemThrows w2 b k s")
        case None
        moreover from None have "setItemThrows w1 b k s = None"
          using agree_reads(2) [OF assms(1), of b k s] by simp
        ultimately show ?thesis
          using assms absent1 False Inr by (simp add: setInitialValue_written agree_frame)
      next
        case (Some e)
        moreover from Some have "setItemThrows w1 b k s = Some e"
          using agree_reads(2) [OF assms(1), of b k s] by simp
        ultimately show ?thesis
          using assms absent1 False Inr by (simp add: setInitialValue_refused agree_frame)
      qed
    qed
  qed
qed

lemma agree_setInitialValue:
  assumes "agree w1 w2"
  shows "\<exists>x y. useLocalState_inline_setInitialValue p w1 = Inr (True, x)
           \<and> setInitialValue LocalStorage (key p) (defaultValue p) (deserialize p)
                (serialize p) w2 = Inr (True, y)
           \<and> agree x y"
proof (cases rule: record_cases
    [where w = w2 and b = LocalStorage and k = "key p" and deser = "deserialize p"])
  case absent
  then have absent1: "getItem w1 LocalStorage (key p) = None
                      \<or> getItem w1 LocalStorage (key p) = Some []"
    using agree_reads(1) [OF assms, of LocalStorage "key p"] by simp
  show ?thesis
    using agree_default_path [OF assms absent, of "defaultValue p" "deserialize p" "serialize p"]
      local_inline_default_path [OF absent1 refl refl]
    by simp
next
  case (usable r v)
  then have "getItem w1 LocalStorage (key p) = Some r"
    using agree_reads(1) [OF assms, of LocalStorage "key p"] by simp
  then show ?thesis
    using usable assms by (simp add: local_inline_usable setInitialValue_usable agree_frame)
next
  case (corrupt r e)
  let ?a = "removeItem LocalStorage (key p) (warn (ParseWarning LocalStorage (key p) e) w1)"
  let ?b = "removeItem LocalStorage (key p) (warn (ParseWarning SessionStorage (key p) e) w2)"
  have rec1: "getItem w1 LocalStorage (key p) = Some r"
    using corrupt agree_reads(1) [OF assms, of LocalStorage "key p"] by simp
  have ab: "agree ?a ?b"
    using assms by (simp add: agree_frame)
  have gone: "getItem ?b LocalStorage (key p) = None \<or> getItem ?b LocalStorage (key p) = Some []"
    "getItem ?a LocalStorage (key p) = None \<or> getItem ?a LocalStorage (key p) = Some []"
    by (simp_all add: getItem_removed)
  have left: "useLocalState_inline_setInitialValue p w1
                = setInitialValue LocalStorage (key p) (defaultValue p) (deserialize p)
                    (serialize p) ?a"
    using local_inline_corrupt [OF rec1 corrupt(2,3)]
      local_inline_default_path [OF gone(2) refl refl]
    by simp
  have right: "setInitialValue LocalStorage (key p) (defaultValue p) (deserialize p)
                 (serialize p) w2
               = setInitialValue LocalStorage (key p) (defaultValue p) (deserialize p)
                   (serialize p) ?b"
    using corrupt by (simp add: setInitialValue_corrupt)
  show ?thesis
    using agree_default_path [OF ab gone(1), of "defaultValue p" "deserialize p" "serialize p"]
      left right
    by simp
qed

lemma agree_effect:
  assumes "agree w1 w2"
  shows "\<exists>a b. useLocalState_inline_effect p w1 = Inr a \<and> useLocalState_effect p w2 = Inr b
           \<and> agree a b"
  using agree_setInitialValue [OF assms, of p]
  by (auto simp: useLocalState_inline_effect_def useLocalState_effect_def agree_frame)

lemma agree_updateStorage:
  assumes "agree w1 w2"
  shows "\<exists>a b. updateStorage st v k ser w1 = Inr a \<and> updateStorage st v k ser w2 = Inr b
           \<and> agree a b"
proof (cases "v = JNull \<or> v = JUndefined \<or> v = JStr []")
  case True
  then show ?thesis using assms by (simp add: updateStorage_empty agree_frame)
next
  case False
  then have ne: "v \<noteq> JNull" "v \<noteq> JUndefined" "v \<noteq> JStr []" by auto
  show ?thesis
  proof (cases "ser v")
    case (Inl e)
    then show ?thesis using ne assms by (simp add: updateStorage_throws agree_frame)
  next
    case (Inr s)
    show ?thesis
    proof (cases "setItemThrows w2 st k s")
      case None
      moreover from None have "setItemThrows w1 st k s = None"
        using agree_reads(2) [OF assms, of st k s] by simp
      ultimately show ?thesis
        using ne Inr assms by (simp add: updateStorage_stores agree_frame)
    next
      case (Some e)
      moreover from Some have "setItemThrows w1 st k s = Some e"
        using agree_reads(2) [OF assms, of st k s] by simp
      ultimately show ?thesis
        using ne Inr assms by (simp add: updateStorage_refused agree_frame)
    qed
  qed
qed

lemma agree_updateValue:
  assumes "agree w1 w2"
  shows "rel_sum (=) agree (useLocalState_inline_updateValue p r w1)
           (useLocalState_updateValue p r w2)"
proof -
  have rv: "renderedValue w1 = renderedValue w2"
    using assms by (rule agree_reads)
  show ?thesis
  proof (cases "calculateNewValue r (renderedValue w2)")
    case (Inl e)
    then show ?thesis
      by (simp add: local_inline_updateValue_eq useLocalState_updateValue_def rv)
  next
    case (Inr v)
    then show ?thesis
      using agree_updateStorage [OF assms, of LocalStorage v "key p" "serialize p"]
      by (auto simp: local_inline_updateValue_eq useLocalState_updateValue_def rv)
  qed
qed

lemma agree_handleStorageChange:
  assumes "agree w1 w2"
  shows "rel_sum (=) agree (useLocalState_inline_handleStorageChange p k v w1)
           (useLocalState_handleStorageChange p k v w2)"
proof (cases "k = Some (key p)")
  case False
  then show ?thesis
    using assms
    by (simp add: local_inline_handleStorageChange_eq useLocalState_handleStorageChange_def)
next
  case True
  show ?thesis
  proof (cases "case v of None \<Rightarrow> Inr JNull
                | Some raw \<Rightarrow> if raw \<noteq> [] then deserialize p raw else Inr JNull")
    case (Inl e)
    with True show ?thesis
      using assms
      by (simp add: local_inline_handleStorageChange_eq useLocalState_handleStorageChange_def
          agree_frame)
  next
    case (Inr x)
    with True show ?thesis
      using assms
      by (simp add: local_inline_handleStorageChange_eq useLocalState_handleStorageChange_def
          agree_frame)
  qed
qed

lemma agree_step:
  assumes "agree w1 w2" and "ev \<noteq> Rerender True"
  shows "rel_sum (=) agree (useLocalState_inline_step p ev w1) (useLocalState_step p ev w2)"
proof (cases ev)
  case (Update r)
  then show ?thesis using agree_updateValue [OF assms(1)] by simp
next
  case (StorageEvent k v)
  then show ?thesis using agree_handleStorageChange [OF assms(1)] by simp
next
  case (Rerender changed)
  then show ?thesis using assms by (simp add: agree_frame)
qed

lemma agree_run:
  assumes "agree w1 w2" and "Rerender True \<notin> set evs"
  shows "agree (fst (run (useLocalState_inline_step p) evs (w1, escaped)))
           (fst (run (useLocalState_step p) evs (w2, escaped)))
         \<and> snd (run (useLocalState_inline_step p) evs (w1, escaped))
           = snd (run (useLocalState_step p) evs (w2, escaped))"
  using assms
proof (induction evs arbitrary: w1 w2 escaped)
  case Nil
  then show ?case by simp
next
  case (Cons ev evs)
  from Cons.prems have ev: "ev \<noteq> Rerender True" and rest: "Rerender True \<notin> set evs"
    by auto
  have step: "rel_sum (=) agree (useLocalState_inline_step p ev w1) (useLocalState_step p ev w2)"
    using Cons.prems(1) ev by (rule agree_step)
  show ?case
  proof (cases "useLocalState_inline_step p ev w1")
    case (Inl e)
    with step have "useLocalState_step p ev w2 = Inl e"
      by (cases "useLocalState_step p ev w2") simp_all
    with Inl show ?thesis
      using Cons.IH [OF Cons.prems(1) rest] by simp
  next
    case (Inr a)
    with step obtain b where b: "useLocalState_step p ev w2 = Inr b" and ab: "agree a b"
      by (cases "useLocalState_step p ev w2") simp_all
    from Inr b show ?thesis
      using Cons.IH [OF ab rest] by simp
  qed
qed

lemma agree_observe:
  "agree (fst r1) (fst r2) \<Longrightarrow> snd r1 = snd r2 \<Longrightarrow> observe r1 = observe r2"
  by (simp add: observe_def agree_def)

text \<open>
  Claim C10, as amended. As long as no render changes the identity of \<open>key\<close>,
  \<open>defaultValue\<close>, \<open>deserialize\<close> or \<open>serialize\<close>, the inline and the refactored variant of
  each hook agree, after mount and any sequence of update calls (from the same or from
  different renders), storage events and renders, on the current value, the loading flag
  and the records of the storages.
\<close>

theorem C10_variants_agree_while_arguments_keep_identity:
  assumes "Rerender True \<notin> set evs"
  shows "observe (run (useSessionState_inline_step p) evs
                    (mount (useSessionState_inline_effect p) w))
         = observe (run (useSessionState_step p) evs (mount (useSessionState_effect p) w))
       \<and> observe (run (useLocalState_inline_step p) evs
                    (mount (useLocalState_inline_effect p) w))
         = observe (run (useLocalState_step p) evs (mount (useLocalState_effect p) w))"
proof -
  have session: "run (useSessionState_inline_step p) evs (mount (useSessionState_inline_effect p) w)
         = run (useSessionState_step p) evs (mount (useSessionState_effect p) w)"
    using run_session_eq [OF assms] by (simp add: mount_def session_inline_effect_eq)
  obtain a b where a: "useLocalState_inline_effect p w = Inr a"
    and b: "useLocalState_effect p w = Inr b" and ab: "agree a b"
    using agree_effect [OF agree_refl] by blast
  have "observe (run (useLocalState_inline_step p) evs (a, []))
         = observe (run (useLocalState_step p) evs (b, []))"
    using agree_run [OF ab assms] by (simp add: agree_observe)
  then show ?thesis
    using session a b by (simp add: mount_def)
qed

theorem C10_witness:
  "Rerender True \<notin> set [Update (Updater toggleUpdater), Update (Updater toggleUpdater),
                          Rerender False, Update (Literal JNull)]
   \<and> observe (run (useLocalState_inline_step (testProps (JBool True)))
                [Update (Updater toggleUpdater), Update (Updater toggleUpdater),
                 Rerender False, Update (Literal JNull)]
                (mount (useLocalState_inline_effect (testProps (JBool True)))
                   (initialRender noStores)))
     = observe (run (useLocalState_step (testProps (JBool True)))
                [Update (Updater toggleUpdater), Update (Updater toggleUpdater),
                 Rerender False, Update (Literal JNull)]
                (mount (useLocalState_effect (testProps (JBool True)))
                   (initialRender noStores)))"
proof -
  have h: "Rerender True \<notin> set [Update (Updater toggleUpdater), Update (Updater toggleUpdater),
                          Rerender False, Update (Literal JNull)]"
    by simp
  show ?thesis
    using h C10_variants_agree_while_arguments_keep_identity
      [where evs = "[Update (Updater toggleUpdater), Update (Updater toggleUpdater),
                          Rerender False, Update (Literal JNull)]"
         and p = "testProps (JBool True)" and w = "initialRender noStores"]
    by blast
qed

text \<open>
  The claim as it was stated fails when a render changes one of these identities: the
  effect of a refactored hook lists them as dependencies and loads again, which writes the
  default back after \<open>update(null)\<close>; the effect of an inline hook has no dependencies and
  runs once.
\<close>

theorem C10_counterexample:
  "storedValue (fst (run (useSessionState_inline_step (testProps (JBool True)))
                [Rerender True, Update (Literal JNull), Rerender True]
                (mount (useSessionState_inline_effect (testProps (JBool True)))
                   (initialRender noStores)))) = JNull
   \<and> getItem (fst (run (useSessionState_inline_step (testProps (JBool True)))
                [Rerender True, Update (Literal JNull), Rerender True]
                (mount (useSessionState_inline_effect (testProps (JBool True)))
                   (initialRender noStores)))) SessionStorage ''testKey'' = None
   \<and> storedValue (fst (run (useSessionState_step (testProps (JBool True)))
                [Rerender True, Update (Literal JNull), Rerender True]
                (mount (useSessionState_effect (testProps (JBool True)))
                   (initialRender noStores)))) = JBool True
   \<and> getItem (fst (run (useSessionState_step (testProps (JBool True)))
                [Rerender True, Update (Literal JNull), Rerender True]
                (mount (useSessionState_effect (testProps (JBool True)))
                   (initialRender noStores)))) SessionStorage ''testKey'' = Some ''yes''"
  by (simp add: run_defs)

end
